theory Spec2Isabelle
  imports Complex_Main "HOL-Library.Product_Lexorder" "HOL-Library.Multiset"
begin

section \<open>Data model of \<^verbatim>\<open>square_skill_api/models/prediction.py\<close>\<close>

text \<open>
  The pydantic models of the source become records. Their scores are Python floats, which
  the code compares and never computes with. The records take the type of the scores as
  a parameter \<open>'f\<close>: the conversion strategies are modelled on finite scores, the reals,
  and the ranking policy also on floats that may be NaN (\<open>pyfloat\<close> below).
\<close>

definition NO_ANSWER_FOUND_STRING :: string where
  "NO_ANSWER_FOUND_STRING = ''No answer found.''"

text \<open>\<^verbatim>\<open>PredictionOutput\<close>; its field \<^verbatim>\<open>output\<close> is \<open>output_text\<close> here.\<close>

record 'f PredictionOutput =
  output_text :: string
  output_score :: 'f

text \<open>\<^verbatim>\<open>PredictionDocument\<close>: every field but \<open>document\<close> has a default; the default of
  \<open>document_score\<close> is 0.\<close>

record 'f PredictionDocument =
  index :: string
  document_id :: string
  document :: string
  span :: "int list option"
  url :: string
  source :: string
  document_score :: 'f

definition mk_PredictionDocument ::
  "string \<Rightarrow> int list option \<Rightarrow> 'f \<Rightarrow> 'f PredictionDocument" where
  "mk_PredictionDocument d sp sc =
     \<lparr>index = [], document_id = [], document = d, span = sp, url = [], source = [],
      document_score = sc\<rparr>"

text \<open>\<^verbatim>\<open>PredictionDocument(document=c)\<close>: all other fields at their defaults.\<close>

definition PredictionDocument_of :: "string \<Rightarrow> real PredictionDocument" where
  "PredictionDocument_of c = mk_PredictionDocument c None 0"

record Node =
  node_id :: int
  node_name :: string
  q_node :: bool
  ans_node :: bool
  node_weight :: real

record Edge =
  edge_source :: int
  edge_target :: int
  edge_weight :: real
  edge_label :: string

record SubGraph =
  nodes :: "(string \<times> Node) list"
  edges :: "(string \<times> Edge) list"

record PredictionGraph =
  lm_subgraph :: SubGraph
  attn_subgraph :: SubGraph

text \<open>A \<^verbatim>\<open>TokenAttribution\<close> holds the index, the word and the score.\<close>

type_synonym TokenAttribution = "int \<times> string \<times> real"

record Attributions =
  topk_question_idx :: "int list"
  topk_context_idx :: "int list"
  question_tokens :: "TokenAttribution list"
  context_tokens :: "TokenAttribution list"

record Adversarial =
  indices :: "int list option"

record 'f Prediction =
  question :: string
  prediction_score :: 'f
  prediction_output :: "'f PredictionOutput"
  prediction_documents :: "'f PredictionDocument list"
  prediction_graph :: "PredictionGraph option"
  attributions :: "Attributions option"

record 'f QueryOutput =
  predictions :: "'f Prediction list"
  adversarial :: "Adversarial option"

text \<open>The exceptions the code raises. pydantic's \<^verbatim>\<open>ValidationError\<close> is kept apart from
  the \<^verbatim>\<open>ValueError\<close> the code raises itself.\<close>

datatype error = KeyError | IndexError | TypeError | ValueError | ValidationError

subsection \<open>The untyped mapping form of a prediction\<close>

text \<open>
  \<^verbatim>\<open>sort_predictions_key\<close> also takes a \<^verbatim>\<open>Dict\<close>. A key that a mapping may lack is an
  option field: \<open>None\<close> is the absent key.
\<close>

record document_dict =
  dd_index :: "string option"
  dd_document_id :: "string option"
  dd_document :: string
  dd_span :: "int list option"
  dd_url :: "string option"
  dd_source :: "string option"
  dd_document_score :: "real option"

record prediction_dict =
  pd_question :: string
  pd_prediction_score :: real
  pd_prediction_output :: "real PredictionOutput"
  pd_prediction_documents :: "document_dict list option"

text \<open>What pydantic makes of the mapping: an absent key takes the field's default.\<close>

definition parse_document :: "document_dict \<Rightarrow> real PredictionDocument" where
  "parse_document d =
     \<lparr>index = (case dd_index d of None \<Rightarrow> [] | Some s \<Rightarrow> s),
      document_id = (case dd_document_id d of None \<Rightarrow> [] | Some s \<Rightarrow> s),
      document = dd_document d,
      span = dd_span d,
      url = (case dd_url d of None \<Rightarrow> [] | Some s \<Rightarrow> s),
      source = (case dd_source d of None \<Rightarrow> [] | Some s \<Rightarrow> s),
      document_score = (case dd_document_score d of None \<Rightarrow> 0 | Some s \<Rightarrow> s)\<rparr>"

definition parse_prediction :: "prediction_dict \<Rightarrow> real Prediction" where
  "parse_prediction p =
     \<lparr>question = pd_question p,
      prediction_score = pd_prediction_score p,
      prediction_output = pd_prediction_output p,
      prediction_documents =
        (case pd_prediction_documents p of None \<Rightarrow> [] | Some ds \<Rightarrow> map parse_document ds),
      prediction_graph = None,
      attributions = None\<rparr>"

section \<open>The ranking policy\<close>

type_synonym sort_key = "bool \<times> real \<times> real"

text \<open>
  The branch of \<^verbatim>\<open>sort_predictions_key\<close> for a \<^verbatim>\<open>Prediction\<close>. A \<^verbatim>\<open>PredictionDocument\<close>
  always has the attribute \<open>document_score\<close>, so the default 1 of \<^verbatim>\<open>getattr\<close> is never
  taken: 1 is the score only when there is no document.
\<close>

definition prediction_key :: "('f::one) Prediction \<Rightarrow> bool \<times> 'f \<times> 'f" where
  "prediction_key p =
     (let answer_found = output_text (prediction_output p) \<notin> set [[], NO_ANSWER_FOUND_STRING];
          answer_score = prediction_score p;
          document_score =
            (case prediction_documents p of [] \<Rightarrow> 1 | d # _ \<Rightarrow> document_score d)
      in (answer_found, answer_score, document_score))"

text \<open>The branch for a \<^verbatim>\<open>Dict\<close>: \<^verbatim>\<open>p["prediction_documents"]\<close> raises on an absent key,
  \<^verbatim>\<open>.get("document_score", 1)\<close> gives 1 for one.\<close>

definition dict_key :: "prediction_dict \<Rightarrow> error + sort_key" where
  "dict_key p =
     (let answer_found = output_text (pd_prediction_output p) \<notin> set [[], NO_ANSWER_FOUND_STRING];
          answer_score = pd_prediction_score p
      in case pd_prediction_documents p of
           None \<Rightarrow> Inl KeyError
         | Some [] \<Rightarrow> Inr (answer_found, answer_score, 1)
         | Some (d # _) \<Rightarrow>
             Inr (answer_found, answer_score,
                  (case dd_document_score d of None \<Rightarrow> 1 | Some s \<Rightarrow> s)))"

datatype prediction_like = IsPrediction "real Prediction" | IsDict prediction_dict | IsOther

definition sort_predictions_key :: "prediction_like \<Rightarrow> error + sort_key" where
  "sort_predictions_key p =
     (case p of
        IsPrediction q \<Rightarrow> Inr (prediction_key q)
      | IsDict d \<Rightarrow> dict_key d
      | IsOther \<Rightarrow> Inl TypeError)"

text \<open>
  Python's \<^verbatim>\<open>sorted(xs, key=f, reverse=True)\<close> on keys in a linear order, as the keys of
  predictions with real scores are: a stable sort into descending order of the keys
  (elements with equal keys keep their order). CPython reverses the list, sorts it stably
  into ascending order and reverses the result; \<^const>\<open>sort_key\<close> is a stable insertion
  sort. The sort on keys that may hold NaN, which Python's comparison does not order, is
  \<open>py_sorted_reverse\<close> below; the two agree where no key holds NaN (lemma
  \<open>py_sorted_reverse_sorted_reverse\<close>).
\<close>

definition sorted_reverse :: "('a \<Rightarrow> 'k::linorder) \<Rightarrow> 'a list \<Rightarrow> 'a list" where
  "sorted_reverse f xs = rev (sort_key f (rev xs))"

text \<open>
  The root validator \<^verbatim>\<open>sort_predictions\<close>. It runs after the fields are validated, so
  every prediction is a \<^verbatim>\<open>Prediction\<close> by then and the key is \<^const>\<open>prediction_key\<close>.
\<close>

definition sort_predictions :: "real QueryOutput \<Rightarrow> real QueryOutput" where
  "sort_predictions vals =
     (if adversarial vals = None
      then vals\<lparr>predictions := sorted_reverse prediction_key (predictions vals)\<rparr>
      else vals)"

text \<open>\<^verbatim>\<open>cls(predictions=ps, adversarial=adv)\<close>; \<^verbatim>\<open>cls(predictions=ps)\<close> is the call with
  \<open>adv = None\<close>.\<close>

definition QueryOutput_init ::
  "real Prediction list \<Rightarrow> Adversarial option \<Rightarrow> real QueryOutput" where
  "QueryOutput_init ps adv = sort_predictions \<lparr>predictions = ps, adversarial = adv\<rparr>"

subsection \<open>Scores that are Python floats\<close>

text \<open>
  pydantic takes every Python float for a score, also the infinities and NaN. All that
  the ranking does with a float is to compare it. A NaN carries the identity of its
  object: the comparison of tuples takes an object as equal to itself before it asks
  \<^verbatim>\<open>==\<close>, and \<^verbatim>\<open>nan == nan\<close> is false. The default document score 1 is the float 1.
\<close>

datatype pyfloat = Finite real | PosInf | NegInf | NaN nat

instantiation pyfloat :: one
begin
definition one_pyfloat_def: "1 = Finite 1"
instance ..
end

fun is_nan :: "pyfloat \<Rightarrow> bool" where
  "is_nan (NaN i) = True"
| "is_nan (Finite r) = False"
| "is_nan PosInf = False"
| "is_nan NegInf = False"

text \<open>\<^verbatim>\<open>a < b\<close> on floats: false whenever one of them is NaN.\<close>

fun float_lt :: "pyfloat \<Rightarrow> pyfloat \<Rightarrow> bool" where
  "float_lt (Finite a) (Finite b) = (a < b)"
| "float_lt (Finite a) PosInf = True"
| "float_lt NegInf (Finite b) = True"
| "float_lt NegInf PosInf = True"
| "float_lt x y = False"

text \<open>
  \<^verbatim>\<open>k < k'\<close> on the keys, tuples of a bool and two floats: the first components that
  differ (neither the same object nor \<^verbatim>\<open>==\<close>) are compared with \<^verbatim>\<open><\<close>; tuples of the same
  length with no such component are not less. Two floats are the same object or \<^verbatim>\<open>==\<close>
  exactly when they are equal as values of \<^typ>\<open>pyfloat\<close>.
\<close>

definition tuple_lt :: "bool \<times> pyfloat \<times> pyfloat \<Rightarrow> bool \<times> pyfloat \<times> pyfloat \<Rightarrow> bool" where
  "tuple_lt k k' =
     (case (k, k') of
        ((a, s, d), (a', s', d')) \<Rightarrow>
          if a = a' then (if s = s' then float_lt d d' else float_lt s s') else a < a')"

subsection \<open>The list sort of CPython\<close>

text \<open>
  \<^verbatim>\<open>list.sort\<close> of CPython (\<^verbatim>\<open>Objects/listobject.c\<close>), which \<^verbatim>\<open>sorted\<close> calls, for a
  comparison \<open>lt\<close> that need not be an order. \<^verbatim>\<open>count_run\<close> takes the longest prefix
  that is ascending (no element less than the one before it) or strictly descending
  (every element less than the one before it), and reverses a descending one.
\<close>

fun asc_run :: "('a \<Rightarrow> 'a \<Rightarrow> bool) \<Rightarrow> 'a \<Rightarrow> 'a list \<Rightarrow> 'a list \<times> 'a list" where
  "asc_run lt prev [] = ([], [])"
| "asc_run lt prev (x # xs) =
     (if lt x prev then ([], x # xs)
      else (case asc_run lt x xs of (run, rest) \<Rightarrow> (x # run, rest)))"

fun desc_run :: "('a \<Rightarrow> 'a \<Rightarrow> bool) \<Rightarrow> 'a \<Rightarrow> 'a list \<Rightarrow> 'a list \<times> 'a list" where
  "desc_run lt prev [] = ([], [])"
| "desc_run lt prev (x # xs) =
     (if lt x prev then (case desc_run lt x xs of (run, rest) \<Rightarrow> (x # run, rest))
      else ([], x # xs))"

fun count_run :: "('a \<Rightarrow> 'a \<Rightarrow> bool) \<Rightarrow> 'a list \<Rightarrow> 'a list \<times> 'a list" where
  "count_run lt [] = ([], [])"
| "count_run lt [x] = ([x], [])"
| "count_run lt (x # y # ys) =
     (if lt y x
      then (case desc_run lt y ys of (run, rest) \<Rightarrow> (rev (x # y # run), rest))
      else (case asc_run lt y ys of (run, rest) \<Rightarrow> (x # y # run, rest)))"

text \<open>
  \<^verbatim>\<open>binarysort\<close> inserts the remaining elements one by one into the run, each at the
  place a binary search gives: between \<open>l\<close> and \<open>r\<close>, it goes left of the middle element
  if the pivot is less than it, and right of it otherwise.
\<close>

function bsearch :: "('a \<Rightarrow> 'a \<Rightarrow> bool) \<Rightarrow> 'a \<Rightarrow> 'a list \<Rightarrow> nat \<Rightarrow> nat \<Rightarrow> nat" where
  "bsearch lt pivot ys l r =
     (if l < r
      then (let p = l + (r - l) div 2
            in if lt pivot (ys ! p) then bsearch lt pivot ys l p
               else bsearch lt pivot ys (p + 1) r)
      else l)"
  by pat_completeness auto
termination
  by (relation "measure (\<lambda>(lt, pivot, ys, l, r). r - l)") auto

declare bsearch.simps [simp del]

definition binary_insert :: "('a \<Rightarrow> 'a \<Rightarrow> bool) \<Rightarrow> 'a list \<Rightarrow> 'a \<Rightarrow> 'a list" where
  "binary_insert lt ys pivot =
     (let l = bsearch lt pivot ys 0 (length ys) in take l ys @ pivot # drop l ys)"

text \<open>
  A list of fewer than 64 elements is one run for \<^verbatim>\<open>list.sort\<close>: the run found, extended
  by binary insertion to the whole list. A longer list is cut into such runs, which are
  merged; that is not modelled. Where the comparison is that of keys in a linear order
  the result is the same, since the result of a stable sort is determined (lemma
  \<open>list_sort_sort_key\<close> below).
\<close>

definition list_sort :: "('a \<Rightarrow> 'a \<Rightarrow> bool) \<Rightarrow> 'a list \<Rightarrow> 'a list" where
  "list_sort lt xs = (case count_run lt xs of (run, rest) \<Rightarrow> foldl (binary_insert lt) run rest)"

text \<open>\<^verbatim>\<open>sorted(xs, key=key, reverse=True)\<close>: the keys are compared with \<open>lt\<close>; the list is
  reversed, sorted and reversed again.\<close>

definition py_sorted_reverse :: "('a \<Rightarrow> 'k) \<Rightarrow> ('k \<Rightarrow> 'k \<Rightarrow> bool) \<Rightarrow> 'a list \<Rightarrow> 'a list" where
  "py_sorted_reverse key lt xs = rev (list_sort (\<lambda>a b. lt (key a) (key b)) (rev xs))"

text \<open>The root validator \<^verbatim>\<open>sort_predictions\<close> and the constructor, on float scores.\<close>

definition sort_predictions_float :: "pyfloat QueryOutput \<Rightarrow> pyfloat QueryOutput" where
  "sort_predictions_float vals =
     (if adversarial vals = None
      then vals\<lparr>predictions := py_sorted_reverse prediction_key tuple_lt (predictions vals)\<rparr>
      else vals)"

definition QueryOutput_init_float ::
  "pyfloat Prediction list \<Rightarrow> Adversarial option \<Rightarrow> pyfloat QueryOutput" where
  "QueryOutput_init_float ps adv = sort_predictions_float \<lparr>predictions = ps, adversarial = adv\<rparr>"

subsection \<open>The ranking policy as the specification words it\<close>

text \<open>
  The composite key of the specification: \<open>answer_found\<close> is false exactly for the empty
  output and for the sentence \<^verbatim>\<open>"No answer found."\<close>; the lead document score is the
  score of the first document listed, and 1 where there is none. A key is at least
  another when it is equal to it or comes after it in the lexicographic order, false
  before true.
\<close>

definition spec_answer_found :: "'f Prediction \<Rightarrow> bool" where
  "spec_answer_found p \<longleftrightarrow>
     output_text (prediction_output p) \<noteq> '''' \<and>
     output_text (prediction_output p) \<noteq> ''No answer found.''"

definition spec_lead_document_score :: "('f::one) Prediction \<Rightarrow> 'f" where
  "spec_lead_document_score p =
     (if prediction_documents p = [] then 1 else document_score (hd (prediction_documents p)))"

definition spec_ranking_key :: "('f::one) Prediction \<Rightarrow> bool \<times> 'f \<times> 'f" where
  "spec_ranking_key p = (spec_answer_found p, prediction_score p, spec_lead_document_score p)"

definition spec_key_ge :: "bool \<times> pyfloat \<times> pyfloat \<Rightarrow> bool \<times> pyfloat \<times> pyfloat \<Rightarrow> bool" where
  "spec_key_ge k k' \<longleftrightarrow>
     (case (k, k') of
        ((a, s, d), (a', s', d')) \<Rightarrow>
          (a \<and> \<not> a') \<or>
          (a = a' \<and> (float_lt s' s \<or> (s = s' \<and> (float_lt d' d \<or> d = d')))))"

text \<open>For the proofs: the floats other than NaN in a linear order, and the keys with them.\<close>

fun float_rank :: "pyfloat \<Rightarrow> int \<times> real" where
  "float_rank NegInf = (-1, 0)"
| "float_rank (Finite r) = (0, r)"
| "float_rank PosInf = (1, 0)"
| "float_rank (NaN i) = (2, 0)"

definition key_rank :: "bool \<times> pyfloat \<times> pyfloat \<Rightarrow> bool \<times> (int \<times> real) \<times> (int \<times> real)" where
  "key_rank k = (case k of (a, s, d) \<Rightarrow> (a, float_rank s, float_rank d))"

section \<open>Arguments and payloads\<close>

text \<open>
  The questions and the context are \<^verbatim>\<open>Union[None, str, List[str]]\<close> by their annotations,
  and Python checks none of them: \<open>SOther\<close> is a value of any other type. Where what the
  code does with such a value depends on the value, \<open>SOther\<close> is a plain \<^verbatim>\<open>object()\<close>:
  truthy, not iterable, and refused by pydantic where a string is required.
\<close>

datatype str_arg = SNone | SStr string | SList "string list" | SOther

fun truthy :: "str_arg \<Rightarrow> bool" where
  "truthy SNone = False"
| "truthy (SStr s) = (s \<noteq> [])"
| "truthy (SList xs) = (xs \<noteq> [])"
| "truthy SOther = True"

text \<open>\<^verbatim>\<open>context_score: Union[None, float, List[float]]\<close>.\<close>

datatype score_arg = ScNone | ScFloat real | ScList "real list"

text \<open>One candidate answer of the extractive QA payload.\<close>

record qa_answer =
  ans_answer :: string
  ans_start :: int
  ans_end :: int
  ans_score :: real

text \<open>
  \<^verbatim>\<open>model_api_output\<close>, a \<^verbatim>\<open>Dict\<close>: one option field per key the strategies read,
  \<open>None\<close> for a key the mapping does not have. \<open>p_logits\<close> is
  \<^verbatim>\<open>["model_outputs"]["logits"]\<close>. The value under \<^verbatim>\<open>"attributions"\<close> has one shape for
  the classification and generation strategies and another for extractive QA, hence the
  type parameter. The value under \<^verbatim>\<open>"adversarial"\<close> may itself be \<^verbatim>\<open>None\<close>.
\<close>

record 'a payload =
  p_questions :: "str_arg option"
  p_context :: "str_arg option"
  p_logits :: "real list list option"
  p_attributions :: "'a option"
  p_adversarial :: "Adversarial option option"
  p_labels :: "int list option"
  p_lm_subgraph :: "SubGraph option"
  p_attn_subgraph :: "SubGraph option"
  p_answers :: "qa_answer list list option"
  p_generated_texts :: "string list list option"

text \<open>\<^verbatim>\<open>model_api_output["model_outputs"]["logits"][0]\<close>\<close>

definition logits0 :: "'a payload \<Rightarrow> error + real list" where
  "logits0 model_api_output =
     (case p_logits model_api_output of
        None \<Rightarrow> Inl KeyError
      | Some [] \<Rightarrow> Inl IndexError
      | Some (row # _) \<Rightarrow> Inr row)"

section \<open>Alignment helpers\<close>

text \<open>
  \<^verbatim>\<open>overwrite_from_model_api_output(model_api_output, key, value, len)\<close>; the key is the
  field it names.
\<close>

definition overwrite_from_model_api_output ::
  "'a payload \<Rightarrow> ('a payload \<Rightarrow> str_arg option) \<Rightarrow> str_arg \<Rightarrow> nat \<Rightarrow> str_arg" where
  "overwrite_from_model_api_output model_api_output key value' len =
     (let v = (case key model_api_output of
                 Some w \<Rightarrow> if truthy w then w else value'
               | None \<Rightarrow> value')
      in case v of SStr s \<Rightarrow> SList (replicate len s) | _ \<Rightarrow> v)"

text \<open>
  \<^verbatim>\<open>_prediction_documents_iter_from_context(iter_len, context)\<close>. \<^verbatim>\<open>range(iter_len)\<close>
  is empty for a negative \<open>iter_len\<close>. The two generators are modelled by the lists of
  what they yield. The items of a list context are strings, as its annotation says.
\<close>

definition prediction_documents_iter_from_context ::
  "int \<Rightarrow> str_arg \<Rightarrow> error + real PredictionDocument list list" where
  "prediction_documents_iter_from_context iter_len context =
     (case context of
        SNone \<Rightarrow> Inr (replicate (nat iter_len) [])
      | SStr s \<Rightarrow> Inr (replicate (nat iter_len) [PredictionDocument_of s])
      | SList cs \<Rightarrow>
          if int (length cs) \<noteq> iter_len then Inl ValueError
          else Inr (map (\<lambda>c. [PredictionDocument_of c]) cs)
      | SOther \<Rightarrow> Inl TypeError)"


text \<open>
  \<^verbatim>\<open>extend_and_sort_attributions_to_scores(scores, attributions, fill_value)\<close>.
  \<^verbatim>\<open>attributions.extend\<close> changes the caller's list and the comprehension then binds the
  name to a new list, so the model returns two lists: what the call returns and what the
  caller's list holds after the call. \<^verbatim>\<open>sorted(zip(sort_idx, attributions))\<close> orders the
  pairs by their indices, which are distinct. The first argument is \<^verbatim>\<open>np.argsort\<close>.
\<close>

definition extend_and_sort_attributions_to_scores ::
  "(real list \<Rightarrow> nat list) \<Rightarrow> real list \<Rightarrow> 'a list \<Rightarrow> 'a \<Rightarrow> 'a list \<times> 'a list" where
  "extend_and_sort_attributions_to_scores np_argsort scores attributions' fill_value =
     (let sort_idx = rev (np_argsort scores);
          len_diff = int (length scores) - int (length attributions')
      in if len_diff > 0
         then (let extended = attributions' @ replicate (nat len_diff) fill_value
               in (map snd (sort_key fst (zip sort_idx extended)), extended))
         else (attributions', attributions'))"

text \<open>Iterating over the questions: a string yields its characters.\<close>

definition iterate :: "str_arg \<Rightarrow> error + string list" where
  "iterate v =
     (case v of
        SList xs \<Rightarrow> Inr xs
      | SStr s \<Rightarrow> Inr (map (\<lambda>c. [c]) s)
      | SNone \<Rightarrow> Inl TypeError
      | SOther \<Rightarrow> Inl TypeError)"

text \<open>\<^verbatim>\<open>zip_longest(..., fillvalue=None)\<close> reads every list at every index up to the
  longest list's length; \<open>nth_opt\<close> is one such read.\<close>

definition nth_opt :: "'a list \<Rightarrow> nat \<Rightarrow> 'a option" where
  "nth_opt xs i = (if i < length xs then Some (xs ! i) else None)"

text \<open>A loop that appends one record per iteration and stops at the first exception.\<close>

fun collect :: "(error + 'a) list \<Rightarrow> error + 'a list" where
  "collect [] = Inr []"
| "collect (Inl e # _) = Inl e"
| "collect (Inr x # rs) = (case collect rs of Inl e \<Rightarrow> Inl e | Inr xs \<Rightarrow> Inr (x # xs))"

section \<open>Conversion strategy: classification\<close>

text \<open>
  The body of the loop of \<^verbatim>\<open>from_sequence_classification\<close>. pydantic refuses \<^verbatim>\<open>None\<close>
  for \<open>output\<close>, \<open>output_score\<close>, \<open>question\<close>, \<open>prediction_score\<close> and
  \<open>prediction_documents\<close>; the attributions are assigned after validation, when truthy.
\<close>

definition sc_prediction ::
  "string option \<Rightarrow> real option \<Rightarrow> string option \<Rightarrow>
   real PredictionDocument list option \<Rightarrow> Attributions option option \<Rightarrow>
   error + real Prediction" where
  "sc_prediction question' prediction_score' answer prediction_documents' attributions' =
     (case (answer, prediction_score') of
        (Some a, Some s) \<Rightarrow>
          (case (question', prediction_documents') of
             (Some q, Some ds) \<Rightarrow>
               Inr \<lparr>question = q, prediction_score = s,
                    prediction_output = \<lparr>output_text = a, output_score = s\<rparr>,
                    prediction_documents = ds, prediction_graph = None,
                    attributions =
                      (case attributions' of Some (Some attr) \<Rightarrow> Some attr | _ \<Rightarrow> None)\<rparr>
           | _ \<Rightarrow> Inl ValidationError)
      | _ \<Rightarrow> Inl ValidationError)"

text \<open>The loop over \<^verbatim>\<open>zip_longest\<close> of the five lists.\<close>

definition sc_predictions ::
  "string list \<Rightarrow> real list \<Rightarrow> string list \<Rightarrow> real PredictionDocument list list \<Rightarrow>
   Attributions option list \<Rightarrow> error + real Prediction list" where
  "sc_predictions questions predictions_scores answers prediction_documents_iter all_attributions =
     collect
       (map (\<lambda>i. sc_prediction (nth_opt questions i) (nth_opt predictions_scores i)
                    (nth_opt answers i) (nth_opt prediction_documents_iter i)
                    (nth_opt all_attributions i))
          [0..<Max {length questions, length predictions_scores, length answers,
                    length prediction_documents_iter, length all_attributions}])"

text \<open>
  The end of \<^verbatim>\<open>from_sequence_classification\<close> and \<^verbatim>\<open>from_question_answering\<close>: the
  envelope takes the value under \<^verbatim>\<open>"adversarial"\<close> when the payload has the key.
\<close>

definition envelope :: "'a payload \<Rightarrow> real Prediction list \<Rightarrow> real QueryOutput" where
  "envelope model_api_output ps =
     (case p_adversarial model_api_output of
        Some adv \<Rightarrow> QueryOutput_init ps adv
      | None \<Rightarrow> QueryOutput_init ps None)"

text \<open>
  \<^verbatim>\<open>from_sequence_classification\<close> returns the envelope or raises, and it may have
  extended the list under \<^verbatim>\<open>"attributions"\<close> of the caller's payload by then: the second
  component is the payload after the call. With no such key the list extended is a fresh
  \<^verbatim>\<open>[]\<close>. The first argument is \<^verbatim>\<open>np.argsort\<close>, which the alignment of the
  attributions calls.
\<close>

definition from_sequence_classification ::
  "(real list \<Rightarrow> nat list) \<Rightarrow> str_arg \<Rightarrow> string list \<Rightarrow>
   Attributions option list payload \<Rightarrow> str_arg \<Rightarrow>
   (error + real QueryOutput) \<times> Attributions option list payload" where
  "from_sequence_classification np_argsort questions answers model_api_output context =
     (case logits0 model_api_output of
        Inl e \<Rightarrow> (Inl e, model_api_output)
      | Inr predictions_scores \<Rightarrow>
          (let questions' = overwrite_from_model_api_output model_api_output p_questions
                              questions (length predictions_scores);
               context' = overwrite_from_model_api_output model_api_output p_context
                            context (length predictions_scores)
           in case prediction_documents_iter_from_context (int (length answers)) context' of
                Inl e \<Rightarrow> (Inl e, model_api_output)
              | Inr prediction_documents_iter \<Rightarrow>
                  (let (all_attributions, model_api_output') =
                         (case p_attributions model_api_output of
                            None \<Rightarrow>
                              (fst (extend_and_sort_attributions_to_scores np_argsort
                                      predictions_scores [] None),
                               model_api_output)
                          | Some given \<Rightarrow>
                              (let (aligned, given') =
                                     extend_and_sort_attributions_to_scores np_argsort
                                       predictions_scores given None
                               in (aligned,
                                   model_api_output\<lparr>p_attributions := Some given'\<rparr>)))
                   in (case iterate questions' of
                         Inl e \<Rightarrow> Inl e
                       | Inr qs \<Rightarrow>
                           (case sc_predictions qs predictions_scores answers
                                   prediction_documents_iter all_attributions of
                              Inl e \<Rightarrow> Inl e
                            | Inr ps \<Rightarrow> Inr (envelope model_api_output ps)),
                       model_api_output'))))"

section \<open>Conversion strategy: classification with graph\<close>




section \<open>Conversion strategy: extractive question answering\<close>

text \<open>The dictionary \<^verbatim>\<open>attributions[0]\<close> of the QA payload: per key, one entry per context.\<close>

record context_attributions =
  ca_topk_question_idx :: "int list list"
  ca_topk_context_idx :: "int list list"
  ca_question_tokens :: "TokenAttribution list list"
  ca_context_tokens :: "TokenAttribution list list"

definition get_attribution_by_context_i ::
  "context_attributions list \<Rightarrow> nat \<Rightarrow> error + Attributions" where
  "get_attribution_by_context_i attributions' context_i =
     (case attributions' of
        [] \<Rightarrow> Inl IndexError
      | a # _ \<Rightarrow>
          (case (nth_opt (ca_topk_question_idx a) context_i,
                 nth_opt (ca_topk_context_idx a) context_i,
                 nth_opt (ca_question_tokens a) context_i,
                 nth_opt (ca_context_tokens a) context_i) of
             (Some tq, Some tc, Some qt, Some ct) \<Rightarrow>
               Inr \<lparr>topk_question_idx = tq, topk_context_idx = tc,
                    question_tokens = qt, context_tokens = ct\<rparr>
           | _ \<Rightarrow> Inl IndexError))"

text \<open>\<^verbatim>\<open>np.argmax(scores)\<close>: the first index of the greatest score; it raises
  \<^verbatim>\<open>ValueError\<close> on an empty list.\<close>

primrec first_index :: "'a list \<Rightarrow> 'a \<Rightarrow> nat" where
  "first_index [] y = 0"
| "first_index (x # xs) y = (if x = y then 0 else Suc (first_index xs y))"

definition argmax :: "real list \<Rightarrow> error + nat" where
  "argmax scores =
     (case scores of
        [] \<Rightarrow> Inl ValueError
      | s # rest \<Rightarrow> Inr (first_index scores (fold max rest s)))"

text \<open>
  The context and its score for the pair \<open>i_context\<close>. In the result, \<open>None\<close> for the
  text is a context that is no string (truthy, and refused by pydantic), and \<open>None\<close>
  for the score is a list of scores given with a context that is no list (refused by
  pydantic as well). \<^verbatim>\<open>context[i_context]\<close> is read before \<^verbatim>\<open>context_score[i_context]\<close>.
\<close>

definition qa_context ::
  "str_arg \<Rightarrow> score_arg \<Rightarrow> nat \<Rightarrow> error + (string option \<times> real option)" where
  "qa_context context context_score i_context =
     (case context of
        SList cs \<Rightarrow>
          if i_context < length cs
          then (case context_score of
                  ScList ss \<Rightarrow>
                    if i_context < length ss
                    then Inr (Some (cs ! i_context), Some (ss ! i_context))
                    else Inl IndexError
                | ScNone \<Rightarrow> Inl TypeError
                | ScFloat _ \<Rightarrow> Inl TypeError)
          else Inl IndexError
      | _ \<Rightarrow>
          Inr ((case context of SNone \<Rightarrow> Some [] | SStr s \<Rightarrow> Some s | _ \<Rightarrow> None),
               (case context_score of
                  ScNone \<Rightarrow> Some 1 | ScFloat r \<Rightarrow> Some r | ScList _ \<Rightarrow> None)))"

text \<open>The body of the inner loop: one candidate answer of one pair.\<close>

definition qa_prediction ::
  "context_attributions list option \<Rightarrow> nat \<Rightarrow> string \<Rightarrow> string option \<Rightarrow> real option \<Rightarrow>
   nat \<Rightarrow> nat \<Rightarrow> qa_answer \<Rightarrow> error + real Prediction" where
  "qa_prediction attributions' i_context question' context_doc_i context_score_i
       top_answer_idx i_answer answer =
     (let answer_str =
            (if ans_answer answer = [] then NO_ANSWER_FOUND_STRING else ans_answer answer);
          prediction_score' = ans_score answer
      in case (case context_doc_i of
                 None \<Rightarrow> Inl ValidationError
               | Some d \<Rightarrow>
                   if d = [] then Inr []
                   else (case context_score_i of
                           None \<Rightarrow> Inl ValidationError
                         | Some s \<Rightarrow>
                             Inr [mk_PredictionDocument d
                                    (Some [ans_start answer, ans_end answer]) s])) of
           Inl e \<Rightarrow> Inl e
         | Inr prediction_documents' \<Rightarrow>
             (let prediction =
                    \<lparr>question = question', prediction_score = prediction_score',
                     prediction_output =
                       \<lparr>output_text = answer_str, output_score = prediction_score'\<rparr>,
                     prediction_documents = prediction_documents',
                     prediction_graph = None, attributions = None\<rparr>
              in case attributions' of
                   Some (a # others) \<Rightarrow>
                     if i_answer = top_answer_idx
                     then (case get_attribution_by_context_i (a # others) i_context of
                             Inl e \<Rightarrow> Inl e
                           | Inr attr \<Rightarrow> Inr (prediction\<lparr>attributions := Some attr\<rparr>))
                     else Inr prediction
                 | _ \<Rightarrow> Inr prediction))"

text \<open>The body of the outer loop: one pair of a question and its candidate answers.\<close>

definition qa_group ::
  "context_attributions list option \<Rightarrow> str_arg \<Rightarrow> score_arg \<Rightarrow> nat \<Rightarrow> string \<Rightarrow>
   qa_answer list \<Rightarrow> error + real Prediction list" where
  "qa_group attributions' context context_score i_context question' answers =
     (case qa_context context context_score i_context of
        Inl e \<Rightarrow> Inl e
      | Inr (context_doc_i, context_score_i) \<Rightarrow>
          (case argmax (map ans_score answers) of
             Inl e \<Rightarrow> Inl e
           | Inr top_answer_idx \<Rightarrow>
               collect
                 (map (\<lambda>(i_answer, answer).
                         qa_prediction attributions' i_context question' context_doc_i
                           context_score_i top_answer_idx i_answer answer)
                    (zip [0..<length answers] answers))))"

definition from_question_answering ::
  "str_arg \<Rightarrow> context_attributions list payload \<Rightarrow> str_arg \<Rightarrow> score_arg \<Rightarrow>
   error + real QueryOutput" where
  "from_question_answering questions model_api_output context context_score =
     (case p_answers model_api_output of
        None \<Rightarrow> Inl KeyError
      | Some groups \<Rightarrow>
          (case iterate (overwrite_from_model_api_output model_api_output p_questions
                           questions (length groups)) of
             Inl e \<Rightarrow> Inl e
           | Inr qs \<Rightarrow>
               (case collect
                       (map (\<lambda>(i_context, question', answers).
                               qa_group (p_attributions model_api_output) context
                                 context_score i_context question' answers)
                          (zip [0..<length qs] (zip qs groups))) of
                  Inl e \<Rightarrow> Inl e
                | Inr pss \<Rightarrow> Inr (envelope model_api_output (concat pss)))))"

section \<open>Conversion strategy: generation\<close>

text \<open>
  \<^verbatim>\<open>from_generation\<close> calls
  \<^verbatim>\<open>cls.overwrite_from_model_api_output(questions, model_api_output, len=...)\<close>: the two
  positional arguments bind the parameters \<^verbatim>\<open>model_api_output\<close> and \<^verbatim>\<open>key\<close>, and the
  parameter \<^verbatim>\<open>value\<close>, which has no default, stays unbound. Python raises \<^verbatim>\<open>TypeError\<close>
  at such a call, before the body of the function runs.
\<close>

definition overwrite_call_without_value :: "str_arg \<Rightarrow> 'a payload \<Rightarrow> nat \<Rightarrow> error + str_arg" where
  "overwrite_call_without_value model_api_output key len = Inl TypeError"

text \<open>
  The body of the loop of \<^verbatim>\<open>from_generation\<close>. \<^verbatim>\<open>PredictionOutput\<close> refuses an answer
  that is \<^verbatim>\<open>None\<close>, \<^verbatim>\<open>PredictionDocument\<close> a context that is no string, and
  \<^verbatim>\<open>Prediction(prediction_score=1, prediction_output=..., prediction_documents=...)\<close> is
  given no \<open>question\<close>, a required field: pydantic raises in every case.
\<close>

definition gen_prediction ::
  "str_arg \<Rightarrow> string option \<Rightarrow> Attributions option option \<Rightarrow> error + real Prediction" where
  "gen_prediction context answer attributions' =
     (case answer of
        None \<Rightarrow> Inl ValidationError
      | Some a \<Rightarrow>
          (case context of
             SStr c \<Rightarrow> Inl ValidationError
           | _ \<Rightarrow> Inl ValidationError))"

definition from_generation ::
  "str_arg \<Rightarrow> Attributions option list payload \<Rightarrow> str_arg \<Rightarrow> score_arg \<Rightarrow>
   error + real QueryOutput" where
  "from_generation questions model_api_output context context_score =
     (case p_generated_texts model_api_output of
        None \<Rightarrow> Inl KeyError
      | Some [] \<Rightarrow> Inl IndexError
      | Some (texts # _) \<Rightarrow>
          (case overwrite_call_without_value questions model_api_output (length texts) of
             Inl e \<Rightarrow> Inl e
           | Inr questions' \<Rightarrow>
               (let given = (case p_attributions model_api_output of
                               None \<Rightarrow> [] | Some attrs \<Rightarrow> attrs)
                in case collect
                          (map (\<lambda>i. gen_prediction context (nth_opt texts i) (nth_opt given i))
                             [0..<max (length texts) (length given)]) of
                     Inl e \<Rightarrow> Inl e
                   | Inr ps \<Rightarrow> Inr (QueryOutput_init ps None))))"

section \<open>Example inputs\<close>

text \<open>A payload with no key at all, and a prediction with neither graph nor attributions.\<close>

definition empty_payload :: "'a payload" where
  "empty_payload =
     \<lparr>p_questions = None, p_context = None, p_logits = None, p_attributions = None,
      p_adversarial = None, p_labels = None, p_lm_subgraph = None, p_attn_subgraph = None,
      p_answers = None, p_generated_texts = None\<rparr>"

definition mk_Prediction ::
  "string \<Rightarrow> 'f \<Rightarrow> string \<Rightarrow> 'f PredictionDocument list \<Rightarrow> 'f Prediction" where
  "mk_Prediction q s a ds =
     \<lparr>question = q, prediction_score = s,
      prediction_output = \<lparr>output_text = a, output_score = s\<rparr>,
      prediction_documents = ds, prediction_graph = None, attributions = None\<rparr>"

text \<open>
  One function that \<^verbatim>\<open>np.argsort\<close> may be, for the examples: a sort by insertion, which
  keeps the indices of equal scores in ascending order.
\<close>

definition insertion_argsort :: "real list \<Rightarrow> nat list" where
  "insertion_argsort scores = sort_key (\<lambda>i. scores ! i) [0..<length scores]"

text \<open>A high-scored prediction without an answer, followed by a low-scored answer.\<close>

definition no_answer_first :: "real Prediction list" where
  "no_answer_first =
     [mk_Prediction ''q'' 0.9 ''No answer found.'' [], mk_Prediction ''q'' 0.1 ''Paris'' []]"

text \<open>A classification payload of three logits with adversarial indices.\<close>

definition adv_payload :: "Attributions option list payload" where
  "adv_payload =
     empty_payload\<lparr>p_logits := Some [[0.2, 0.9, 0.5]],
                   p_adversarial := Some (Some \<lparr>indices = Some [1, 2]\<rparr>)\<rparr>"

definition adv_env :: "real QueryOutput" where
  "adv_env =
     \<lparr>predictions =
        [mk_Prediction ''q'' 0.2 ''a'' [PredictionDocument_of ''ctx''],
         mk_Prediction ''q'' 0.9 ''b'' [PredictionDocument_of ''ctx''],
         mk_Prediction ''q'' 0.5 ''c'' [PredictionDocument_of ''ctx'']],
      adversarial = Some \<lparr>indices = Some [1, 2]\<rparr>\<rparr>"

text \<open>A classification payload with one attribution for three logits.\<close>

definition a0 :: Attributions where
  "a0 =
     \<lparr>topk_question_idx = [1], topk_context_idx = [0],
      question_tokens = [(1, ''who'', 0.7)], context_tokens = [(0, ''Paris'', 0.4)]\<rparr>"

definition attr_payload :: "Attributions option list payload" where
  "attr_payload =
     empty_payload\<lparr>p_logits := Some [[0.2, 0.9, 0.5]], p_attributions := Some [Some a0]\<rparr>"

text \<open>Extractive QA payloads with one and with two pairs, of one candidate answer each.\<close>

definition answer_x :: qa_answer where
  "answer_x = \<lparr>ans_answer = ''x'', ans_start = 0, ans_end = 1, ans_score = 0.5\<rparr>"

definition qa_payload :: "context_attributions list payload" where
  "qa_payload = empty_payload\<lparr>p_answers := Some [[answer_x]]\<rparr>"

definition qa_payload2 :: "context_attributions list payload" where
  "qa_payload2 = empty_payload\<lparr>p_answers := Some [[answer_x], [answer_x]]\<rparr>"






text \<open>A prediction in mapping form whose document has no key \<^verbatim>\<open>"document_score"\<close>.\<close>

definition doc_without_score :: document_dict where
  "doc_without_score =
     \<lparr>dd_index = None, dd_document_id = None, dd_document = ''d'', dd_span = None,
      dd_url = None, dd_source = None, dd_document_score = None\<rparr>"

definition dict_without_score :: prediction_dict where
  "dict_without_score =
     \<lparr>pd_question = ''q'', pd_prediction_score = 0.5,
      pd_prediction_output = \<lparr>output_text = ''a'', output_score = 0.5\<rparr>,
      pd_prediction_documents = Some [doc_without_score]\<rparr>"

text \<open>A generation payload with one generated text.\<close>

definition gen_payload :: "Attributions option list payload" where
  "gen_payload = empty_payload\<lparr>p_generated_texts := Some [[''a generated answer'']]\<rparr>"

text \<open>
  Six predictions with finite and infinite scores: two without an answer, two with equal
  keys, one without a document.
\<close>

definition ranked_example :: "pyfloat Prediction list" where
  "ranked_example =
     [mk_Prediction ''q'' (Finite 0.1) ''a'' [],
      mk_Prediction ''q'' PosInf ''No answer found.'' [],
      mk_Prediction ''q'' (Finite 0.5) ''b'' [mk_PredictionDocument ''x'' None (Finite 0.3)],
      mk_Prediction ''q'' (Finite 0.5) ''c'' [mk_PredictionDocument ''y'' None (Finite 0.7)],
      mk_Prediction ''q'' (Finite 0.5) ''d'' [mk_PredictionDocument ''z'' None (Finite 0.7)],
      mk_Prediction ''q'' (Finite 0.9) '''' []]"

text \<open>Three answers; the score of the second is NaN.\<close>

definition nan_example :: "pyfloat Prediction list" where
  "nan_example =
     [mk_Prediction ''q'' (Finite 0.1) ''a'' [],
      mk_Prediction ''q'' (NaN 0) ''b'' [],
      mk_Prediction ''q'' (Finite 0.9) ''c'' []]"

section \<open>Lemmas on the helpers\<close>

lemma sorted_reverse_desc: "sorted_wrt (\<lambda>a b. f b \<le> f a) (sorted_reverse f xs)"
proof -
  have "sorted (map f (sort_key f (rev xs)))"
    by (rule sorted_sort_key)
  then have "sorted_wrt (\<lambda>a b. f a \<le> f b) (sort_key f (rev xs))"
    by (simp add: sorted_map)
  then show ?thesis
    by (simp add: sorted_reverse_def sorted_wrt_rev)
qed

lemma sorted_reverse_stable:
  "filter (\<lambda>y. f y = k) (sorted_reverse f xs) = filter (\<lambda>y. f y = k) xs"
  by (simp add: sorted_reverse_def sort_key_stable flip: rev_filter)

lemma mset_sorted_reverse: "mset (sorted_reverse f xs) = mset xs"
  by (simp add: sorted_reverse_def)

subsection \<open>The list sort on keys in a linear order\<close>

text \<open>
  Where \<open>lt\<close> compares keys \<open>f\<close> in a linear order, each step of \<open>list_sort\<close> keeps the
  list sorted and the elements of every key in their order.
\<close>

lemma asc_run_props:
  fixes f :: "'a \<Rightarrow> 'k::linorder"
  assumes "asc_run lt prev xs = (run, rest)"
    and "\<forall>a\<in>insert prev (set xs). \<forall>b\<in>insert prev (set xs). lt a b = (f a < f b)"
  shows "xs = run @ rest \<and> sorted (map f (prev # run))"
  using assms
proof (induction xs arbitrary: prev run rest)
  case Nil
  then show ?case by simp
next
  case (Cons x xs)
  show ?case
  proof (cases "lt x prev")
    case True
    with Cons.prems show ?thesis by simp
  next
    case False
    then obtain run' where r: "asc_run lt x xs = (run', rest)" and run: "run = x # run'"
      using Cons.prems(1) by (auto split: prod.splits)
    have "\<forall>a\<in>insert x (set xs). \<forall>b\<in>insert x (set xs). lt a b = (f a < f b)"
      using Cons.prems(2) by simp
    from Cons.IH[OF r this] have ih: "xs = run' @ rest" "sorted (map f (x # run'))" by auto
    from False Cons.prems(2) have "f prev \<le> f x" by (simp add: not_less)
    with ih run show ?thesis by auto
  qed
qed

lemma desc_run_props:
  fixes f :: "'a \<Rightarrow> 'k::linorder"
  assumes "desc_run lt prev xs = (run, rest)"
    and "\<forall>a\<in>insert prev (set xs). \<forall>b\<in>insert prev (set xs). lt a b = (f a < f b)"
  shows "xs = run @ rest \<and> sorted_wrt (\<lambda>a b. f b < f a) (prev # run)"
  using assms
proof (induction xs arbitrary: prev run rest)
  case Nil
  then show ?case by simp
next
  case (Cons x xs)
  show ?case
  proof (cases "lt x prev")
    case False
    with Cons.prems show ?thesis by simp
  next
    case True
    then obtain run' where r: "desc_run lt x xs = (run', rest)" and run: "run = x # run'"
      using Cons.prems(1) by (auto split: prod.splits)
    have "\<forall>a\<in>insert x (set xs). \<forall>b\<in>insert x (set xs). lt a b = (f a < f b)"
      using Cons.prems(2) by simp
    from Cons.IH[OF r this] have ih: "xs = run' @ rest" "sorted_wrt (\<lambda>a b. f b < f a) (x # run')"
      by auto
    from True Cons.prems(2) have "f x < f prev" by simp
    moreover from ih(2) have "\<forall>y\<in>set run'. f y < f x" by simp
    ultimately have "\<forall>y\<in>set (x # run'). f y < f prev"
      by (auto intro: less_trans)
    with ih run show ?thesis by simp
  qed
qed

text \<open>The run found: sorted, and every key's elements in their order in the list.\<close>

lemma filter_rev_distinct_keys:
  fixes f :: "'a \<Rightarrow> 'k::linorder"
  assumes "sorted_wrt (\<lambda>a b. f b < f a) xs"
  shows "filter (\<lambda>x. f x = k) (rev xs) = filter (\<lambda>x. f x = k) xs"
  using assms
proof (induction xs)
  case Nil
  then show ?case by simp
next
  case (Cons x xs)
  then have ih: "filter (\<lambda>x. f x = k) (rev xs) = filter (\<lambda>x. f x = k) xs"
    and lt: "\<forall>y\<in>set xs. f y < f x"
    by auto
  show ?case
  proof (cases "f x = k")
    case True
    with lt have "filter (\<lambda>x. f x = k) xs = []"
      by (auto simp: filter_empty_conv)
    with ih True show ?thesis by simp
  next
    case False
    with ih show ?thesis by simp
  qed
qed

lemma count_run_props:
  fixes f :: "'a \<Rightarrow> 'k::linorder"
  assumes "count_run lt xs = (run, rest)"
    and "\<forall>a\<in>set xs. \<forall>b\<in>set xs. lt a b = (f a < f b)"
  shows "sorted (map f run)"
    and "filter (\<lambda>x. f x = k) (run @ rest) = filter (\<lambda>x. f x = k) xs"
    and "mset run + mset rest = mset xs"
proof -
  have "sorted (map f run) \<and> filter (\<lambda>x. f x = k) (run @ rest) = filter (\<lambda>x. f x = k) xs
        \<and> mset run + mset rest = mset xs"
  proof (cases xs)
    case Nil
    with assms show ?thesis by simp
  next
    case outer: (Cons x tl)
    show ?thesis
    proof (cases tl)
    case Nil
    with outer assms show ?thesis by auto
  next
    case (Cons y ys)
    with outer have xs: "xs = x # y # ys" by simp
    have agree: "\<forall>a\<in>insert y (set ys). \<forall>b\<in>insert y (set ys). lt a b = (f a < f b)"
      using assms(2) xs by simp
    show ?thesis
    proof (cases "lt y x")
      case True
      then obtain run' where d: "desc_run lt y ys = (run', rest)"
        and run: "run = rev (x # y # run')"
        using assms(1) xs by (auto split: prod.splits)
      from desc_run_props[OF d agree]
      have ys: "ys = run' @ rest" and desc: "sorted_wrt (\<lambda>a b. f b < f a) (y # run')"
        by auto
      from True assms(2) xs have "f y < f x" by simp
      with desc have desc2: "sorted_wrt (\<lambda>a b. f b < f a) (x # y # run')"
        by (auto intro: less_trans)
      then have "sorted_wrt (\<lambda>a b. f a < f b) (rev (x # y # run'))"
        by (simp only: sorted_wrt_rev)
      then have "sorted_wrt (\<lambda>a b. f a \<le> f b) (rev (x # y # run'))"
        by (rule sorted_wrt_mono_rel[rotated]) simp
      then have s: "sorted (map f run)"
        by (simp only: run sorted_map)
      have fr: "filter (\<lambda>x. f x = k) run = filter (\<lambda>x. f x = k) (x # y # run')"
        unfolding run by (rule filter_rev_distinct_keys[OF desc2])
      have "filter (\<lambda>x. f x = k) (run @ rest)
              = filter (\<lambda>x. f x = k) (x # y # run') @ filter (\<lambda>x. f x = k) rest"
        using fr by (simp only: filter_append)
      also have "\<dots> = filter (\<lambda>x. f x = k) xs"
        by (simp add: xs ys)
      finally have fl: "filter (\<lambda>x. f x = k) (run @ rest) = filter (\<lambda>x. f x = k) xs" .
      have "mset run + mset rest = mset xs"
        by (simp add: run xs ys)
      with s fl show ?thesis by blast
    next
      case False
      then obtain run' where a: "asc_run lt y ys = (run', rest)"
        and run: "run = x # y # run'"
        using assms(1) xs by (auto split: prod.splits)
      from asc_run_props[OF a agree]
      have ys: "ys = run' @ rest" and asc: "sorted (map f (y # run'))"
        by auto
      from False assms(2) xs have "f x \<le> f y" by (simp add: not_less)
      with asc have "sorted (map f (x # y # run'))" by auto
      with xs ys run show ?thesis by simp
    qed
  qed
  qed
  then show "sorted (map f run)"
    and "filter (\<lambda>x. f x = k) (run @ rest) = filter (\<lambda>x. f x = k) xs"
    and "mset run + mset rest = mset xs"
    by auto
qed

text \<open>The binary search finds the place behind the last element that is not greater.\<close>

lemma bsearch_props:
  fixes f :: "'a \<Rightarrow> 'k::linorder"
  assumes "sorted (map f ys)"
    and "\<forall>b\<in>set ys. lt pivot b = (f pivot < f b)"
    and "l \<le> r" and "r \<le> length ys"
    and "\<forall>i<l. f (ys ! i) \<le> f pivot"
    and "\<forall>i. r \<le> i \<and> i < length ys \<longrightarrow> f pivot < f (ys ! i)"
  shows "bsearch lt pivot ys l r \<le> length ys
         \<and> (\<forall>i<bsearch lt pivot ys l r. f (ys ! i) \<le> f pivot)
         \<and> (\<forall>i. bsearch lt pivot ys l r \<le> i \<and> i < length ys \<longrightarrow> f pivot < f (ys ! i))"
  using assms
proof (induction lt pivot ys l r rule: bsearch.induct)
  case (1 lt pivot ys l r)
  show ?case
  proof (cases "l < r")
    case False
    with "1.prems"(3) have lr: "l = r" by simp
    have eq: "bsearch lt pivot ys l r = l"
      by (subst bsearch.simps) (simp add: lr)
    from "1.prems"(4,5,6) lr show ?thesis
      unfolding eq by simp
  next
    case True
    define p where "p = l + (r - l) div 2"
    have p: "l \<le> p" "p < r"
      using True by (simp_all add: p_def)
    then have plen: "p < length ys"
      using "1.prems"(4) by simp
    have srt: "f (ys ! i) \<le> f (ys ! j)" if "i \<le> j" "j < length ys" for i j
      using "1.prems"(1) that by (simp add: sorted_iff_nth_mono)
    show ?thesis
    proof (cases "lt pivot (ys ! p)")
      case lt: True
      from lt "1.prems"(2) plen have less: "f pivot < f (ys ! p)"
        by simp
      have inv2: "\<forall>i. p \<le> i \<and> i < length ys \<longrightarrow> f pivot < f (ys ! i)"
      proof (intro allI impI)
        fix i assume "p \<le> i \<and> i < length ys"
        then have "f (ys ! p) \<le> f (ys ! i)" by (simp add: srt)
        with less show "f pivot < f (ys ! i)" by (rule less_le_trans)
      qed
      have eq: "bsearch lt pivot ys l r = bsearch lt pivot ys l p"
        by (subst bsearch.simps) (simp add: True lt Let_def flip: p_def)
      have "p \<le> length ys" using plen by simp
      with True lt p(1) inv2 "1.prems"(1,2,5)
      have "bsearch lt pivot ys l p \<le> length ys
         \<and> (\<forall>i<bsearch lt pivot ys l p. f (ys ! i) \<le> f pivot)
         \<and> (\<forall>i. bsearch lt pivot ys l p \<le> i \<and> i < length ys \<longrightarrow> f pivot < f (ys ! i))"
        by (intro "1.IH"(1)[of p]) (simp_all add: p_def)
      then show ?thesis
        unfolding eq .
    next
      case nlt: False
      from nlt "1.prems"(2) plen have le: "f (ys ! p) \<le> f pivot"
        by (simp add: not_less)
      have inv1: "\<forall>i<p + 1. f (ys ! i) \<le> f pivot"
      proof (intro allI impI)
        fix i assume "i < p + 1"
        then have "f (ys ! i) \<le> f (ys ! p)" using plen by (simp add: srt)
        with le show "f (ys ! i) \<le> f pivot" by simp
      qed
      have eq: "bsearch lt pivot ys l r = bsearch lt pivot ys (p + 1) r"
        by (subst bsearch.simps) (simp add: True nlt Let_def flip: p_def)
      have "p + 1 \<le> r" using p(2) by simp
      with True nlt inv1 "1.prems"(1,2,4,6)
      have "bsearch lt pivot ys (p + 1) r \<le> length ys
         \<and> (\<forall>i<bsearch lt pivot ys (p + 1) r. f (ys ! i) \<le> f pivot)
         \<and> (\<forall>i. bsearch lt pivot ys (p + 1) r \<le> i \<and> i < length ys
                \<longrightarrow> f pivot < f (ys ! i))"
        by (intro "1.IH"(2)[of p]) (simp_all add: p_def)
      then show ?thesis
        unfolding eq .
    qed
  qed
qed

lemma binary_insert_props:
  fixes f :: "'a \<Rightarrow> 'k::linorder"
  assumes "sorted (map f ys)"
    and "\<forall>b\<in>set ys. lt x b = (f x < f b)"
  shows "sorted (map f (binary_insert lt ys x))"
    and "filter (\<lambda>y. f y = k) (binary_insert lt ys x) = filter (\<lambda>y. f y = k) (ys @ [x])"
    and "mset (binary_insert lt ys x) = mset ys + {#x#}"
proof -
  define i where "i = bsearch lt x ys 0 (length ys)"
  have bi: "binary_insert lt ys x = take i ys @ x # drop i ys"
    by (simp add: binary_insert_def i_def Let_def)
  have "bsearch lt x ys 0 (length ys) \<le> length ys
         \<and> (\<forall>j<bsearch lt x ys 0 (length ys). f (ys ! j) \<le> f x)
         \<and> (\<forall>j. bsearch lt x ys 0 (length ys) \<le> j \<and> j < length ys \<longrightarrow> f x < f (ys ! j))"
    by (rule bsearch_props) (use assms in auto)
  then have i: "i \<le> length ys"
    and before: "\<forall>j<i. f (ys ! j) \<le> f x"
    and after: "\<forall>j. i \<le> j \<and> j < length ys \<longrightarrow> f x < f (ys ! j)"
    unfolding i_def by blast+
  have tk: "\<forall>y\<in>set (take i ys). f y \<le> f x"
  proof
    fix y assume "y \<in> set (take i ys)"
    then obtain j where "j < length (take i ys)" "take i ys ! j = y"
      by (auto simp: in_set_conv_nth)
    with before i show "f y \<le> f x" by auto
  qed
  have dr: "\<forall>y\<in>set (drop i ys). f x < f y"
  proof
    fix y assume "y \<in> set (drop i ys)"
    then obtain j where j: "j < length (drop i ys)" "drop i ys ! j = y"
      by (auto simp: in_set_conv_nth)
    then have "i + j < length ys" "ys ! (i + j) = y" using i by auto
    with after show "f x < f y" by (metis le_add1)
  qed
  then have dr': "\<forall>y\<in>set (drop i ys). f x \<le> f y"
    by (simp add: less_imp_le)
  have "sorted (map f (take i ys @ drop i ys))"
    using assms(1) by simp
  then have s: "sorted (map f (take i ys))" "sorted (map f (drop i ys))"
    "\<forall>a\<in>set (take i ys). \<forall>b\<in>set (drop i ys). f a \<le> f b"
    by (simp_all add: sorted_append del: append_take_drop_id)
  from s tk dr' show "sorted (map f (binary_insert lt ys x))"
    by (simp add: bi sorted_append)
  from dr have empty: "filter (\<lambda>y. f y = f x) (drop i ys) = []"
    by (auto simp: filter_empty_conv)
  have split: "filter (\<lambda>y. f y = k) ys
                 = filter (\<lambda>y. f y = k) (take i ys) @ filter (\<lambda>y. f y = k) (drop i ys)"
    by (metis append_take_drop_id filter_append)
  show "filter (\<lambda>y. f y = k) (binary_insert lt ys x) = filter (\<lambda>y. f y = k) (ys @ [x])"
  proof (cases "f x = k")
    case True
    with empty have "filter (\<lambda>y. f y = k) (drop i ys) = []" by simp
    with True show ?thesis by (simp add: bi split)
  next
    case False
    then show ?thesis by (simp add: bi split)
  qed
  have "mset ys = mset (take i ys) + mset (drop i ys)"
    by (metis append_take_drop_id mset_append)
  then show "mset (binary_insert lt ys x) = mset ys + {#x#}"
    by (simp add: bi)
qed

lemma foldl_binary_insert_props:
  fixes f :: "'a \<Rightarrow> 'k::linorder"
  assumes "sorted (map f run)"
    and "\<forall>a\<in>set run \<union> set rest. \<forall>b\<in>set run \<union> set rest. lt a b = (f a < f b)"
  shows "sorted (map f (foldl (binary_insert lt) run rest))
         \<and> (\<forall>k. filter (\<lambda>y. f y = k) (foldl (binary_insert lt) run rest)
                  = filter (\<lambda>y. f y = k) (run @ rest))
         \<and> mset (foldl (binary_insert lt) run rest) = mset run + mset rest"
  using assms
proof (induction rest arbitrary: run)
  case Nil
  then show ?case by simp
next
  case (Cons x rest)
  let ?run = "binary_insert lt run x"
  have agree_x: "\<forall>b\<in>set run. lt x b = (f x < f b)"
    using Cons.prems(2) by simp
  note bi = binary_insert_props[where f = f and lt = lt and ys = run and x = x,
      OF Cons.prems(1) agree_x]
  have "set_mset (mset ?run) = set_mset (mset run + {#x#})"
    by (simp only: bi(3))
  then have set_run: "set ?run = insert x (set run)"
    by simp
  have "\<forall>a\<in>set ?run \<union> set rest. \<forall>b\<in>set ?run \<union> set rest. lt a b = (f a < f b)"
    using Cons.prems(2) by (simp add: set_run)
  from Cons.IH[where run = "?run", OF bi(1) this]
  have ih: "sorted (map f (foldl (binary_insert lt) ?run rest))"
    "\<And>k. filter (\<lambda>y. f y = k) (foldl (binary_insert lt) ?run rest)
            = filter (\<lambda>y. f y = k) (?run @ rest)"
    "mset (foldl (binary_insert lt) ?run rest) = mset ?run + mset rest"
    by auto
  have "filter (\<lambda>y. f y = k) (?run @ rest) = filter (\<lambda>y. f y = k) (run @ x # rest)" for k
    using bi(2)[of k] by simp
  with ih bi(3) show ?case
    by simp
qed

text \<open>Where the comparison is that of keys in a linear order, \<open>list_sort\<close> is the stable
  sort.\<close>

lemma list_sort_sort_key:
  fixes f :: "'a \<Rightarrow> 'k::linorder"
  assumes "\<forall>a\<in>set xs. \<forall>b\<in>set xs. lt a b = (f a < f b)"
  shows "list_sort lt xs = sort_key f xs"
proof -
  obtain run rest where cr: "count_run lt xs = (run, rest)"
    by (cases "count_run lt xs")
  note c = count_run_props[where f = f and lt = lt, OF cr assms]
  from c(3) have "set_mset (mset run + mset rest) = set_mset (mset xs)"
    by simp
  then have sets: "set run \<union> set rest = set xs"
    by simp
  have "\<forall>a\<in>set run \<union> set rest. \<forall>b\<in>set run \<union> set rest. lt a b = (f a < f b)"
    using assms by (simp only: sets)
  from foldl_binary_insert_props[where f = f and lt = lt, OF c(1) this]
  have s: "sorted (map f (list_sort lt xs))"
    and fl: "\<And>k. filter (\<lambda>y. f y = k) (list_sort lt xs) = filter (\<lambda>y. f y = k) (run @ rest)"
    and m: "mset (list_sort lt xs) = mset run + mset rest"
    by (simp_all add: list_sort_def cr)
  have "sort_key f xs = list_sort lt xs"
  proof (rule properties_for_sort_key)
    show "mset (list_sort lt xs) = mset xs"
      using m c(3) by simp
    show "sorted (map f (list_sort lt xs))"
      by (rule s)
    fix k assume "k \<in> set (list_sort lt xs)"
    have "filter (\<lambda>y. f y = f k) (list_sort lt xs) = filter (\<lambda>y. f y = f k) xs"
      using fl[of "f k"] c(2)[of "f k"] by simp
    moreover have "(\<lambda>x. f k = f x) = (\<lambda>y. f y = f k)"
      by auto
    ultimately show "filter (\<lambda>x. f k = f x) (list_sort lt xs) = filter (\<lambda>x. f k = f x) xs"
      by simp
  qed
  then show ?thesis by simp
qed

lemma py_sorted_reverse_sorted_reverse:
  fixes f :: "'a \<Rightarrow> 'k::linorder"
  assumes "\<forall>a\<in>set xs. \<forall>b\<in>set xs. lt (key a) (key b) = (f a < f b)"
  shows "py_sorted_reverse key lt xs = sorted_reverse f xs"
proof -
  have "list_sort (\<lambda>a b. lt (key a) (key b)) (rev xs) = sort_key f (rev xs)"
    by (rule list_sort_sort_key) (use assms in simp)
  then show ?thesis
    by (simp add: py_sorted_reverse_def sorted_reverse_def)
qed

subsection \<open>Keys without NaN\<close>

text \<open>On floats other than NaN, and on keys made of them, Python's comparison is a
  linear order, and the key of the code is the key of the specification.\<close>

lemma float_lt_rank:
  "\<not> is_nan a \<Longrightarrow> \<not> is_nan b \<Longrightarrow> float_lt a b = (float_rank a < float_rank b)"
  by (cases a; cases b) (simp_all add: less_prod_def)

lemma float_rank_inj:
  "\<not> is_nan a \<Longrightarrow> \<not> is_nan b \<Longrightarrow> float_rank a = float_rank b \<longleftrightarrow> a = b"
  by (cases a; cases b) simp_all

lemma prediction_key_spec_ranking_key: "prediction_key p = spec_ranking_key p"
  by (cases "prediction_documents p")
    (simp_all add: prediction_key_def spec_ranking_key_def spec_answer_found_def
      spec_lead_document_score_def NO_ANSWER_FOUND_STRING_def Let_def)

lemma tuple_lt_rank:
  assumes "\<not> is_nan s" "\<not> is_nan d" "\<not> is_nan s'" "\<not> is_nan d'"
  shows "tuple_lt (a, s, d) (a', s', d') = (key_rank (a, s, d) < key_rank (a', s', d'))"
proof -
  have e: "(s = s') = (float_rank s = float_rank s')"
    using assms by (simp add: float_rank_inj)
  have "tuple_lt (a, s, d) (a', s', d')
        = (if a = a'
           then (if float_rank s = float_rank s' then float_rank d < float_rank d'
                 else float_rank s < float_rank s')
           else a < a')"
    using assms by (simp add: tuple_lt_def float_lt_rank e)
  also have "\<dots> = ((a, float_rank s, float_rank d) < (a', float_rank s', float_rank d'))"
    by auto
  finally show ?thesis
    by (simp add: key_rank_def)
qed

lemma spec_key_ge_rank:
  assumes "\<not> is_nan s" "\<not> is_nan d" "\<not> is_nan s'" "\<not> is_nan d'"
  shows "spec_key_ge (a, s, d) (a', s', d') = (key_rank (a', s', d') \<le> key_rank (a, s, d))"
proof -
  have e: "(s = s') = (float_rank s = float_rank s')" "(d = d') = (float_rank d = float_rank d')"
    using assms by (simp_all add: float_rank_inj)
  have "spec_key_ge (a, s, d) (a', s', d')
        = ((a \<and> \<not> a') \<or>
           (a = a' \<and> (float_rank s' < float_rank s \<or>
              (float_rank s = float_rank s' \<and>
                 (float_rank d' < float_rank d \<or> float_rank d = float_rank d')))))"
    using assms by (simp add: spec_key_ge_def float_lt_rank e)
  also have "\<dots> = ((a', float_rank s', float_rank d') \<le> (a, float_rank s, float_rank d))"
    by auto
  finally show ?thesis
    by (simp add: key_rank_def)
qed

lemma key_rank_inj:
  assumes "\<not> is_nan s" "\<not> is_nan d" "\<not> is_nan s'" "\<not> is_nan d'"
  shows "key_rank (a, s, d) = key_rank (a', s', d') \<longleftrightarrow> (a, s, d) = (a', s', d')"
  using assms by (simp add: key_rank_def float_rank_inj)

lemma QueryOutput_init_float_None:
  "QueryOutput_init_float ps None =
     \<lparr>predictions = py_sorted_reverse prediction_key tuple_lt ps, adversarial = None\<rparr>"
  by (simp add: QueryOutput_init_float_def sort_predictions_float_def)

lemma py_sorted_reverse_without_nan:
  assumes "\<forall>p\<in>set ps. \<not> is_nan (prediction_score p) \<and> \<not> is_nan (spec_lead_document_score p)"
  shows "py_sorted_reverse prediction_key tuple_lt ps
          = sorted_reverse (\<lambda>p. key_rank (spec_ranking_key p)) ps"
proof (rule py_sorted_reverse_sorted_reverse, intro ballI)
  fix a b assume "a \<in> set ps" "b \<in> set ps"
  with assms show "tuple_lt (prediction_key a) (prediction_key b)
                   = (key_rank (spec_ranking_key a) < key_rank (spec_ranking_key b))"
    by (simp add: prediction_key_spec_ranking_key spec_ranking_key_def tuple_lt_rank)
qed

lemma QueryOutput_init_None:
  "QueryOutput_init ps None =
     \<lparr>predictions = sorted_reverse prediction_key ps, adversarial = None\<rparr>"
  by (simp add: QueryOutput_init_def sort_predictions_def)

lemma QueryOutput_init_Some:
  "QueryOutput_init ps (Some adv) = \<lparr>predictions = ps, adversarial = Some adv\<rparr>"
  by (simp add: QueryOutput_init_def sort_predictions_def)

lemma collect_map_Inr: "collect (map Inr xs) = Inr xs"
  by (induction xs) auto

lemma collect_Inr_D: "collect rs = Inr xs \<Longrightarrow> rs = map Inr xs"
proof (induction rs arbitrary: xs)
  case Nil
  then show ?case by simp
next
  case (Cons r rs)
  show ?case
  proof (cases r)
    case (Inl e)
    with Cons.prems show ?thesis by simp
  next
    case (Inr x)
    with Cons.prems obtain ys where ys: "collect rs = Inr ys" and xs: "xs = x # ys"
      by (auto split: sum.splits)
    from Cons.IH[OF ys] Inr xs show ?thesis by simp
  qed
qed

lemma collect_map_upt:
  assumes "collect (map f [0..<n]) = Inr ps"
  shows "length ps = n" and "i < n \<Longrightarrow> f i = Inr (ps ! i)"
proof -
  from assms have eq: "map f [0..<n] = map Inr ps"
    by (rule collect_Inr_D)
  then have "length (map f [0..<n]) = length (map Inr ps)"
    by simp
  then show len: "length ps = n"
    by simp
  assume "i < n"
  with eq len have "map f [0..<n] ! i = map Inr ps ! i"
    by simp
  with \<open>i < n\<close> len show "f i = Inr (ps ! i)"
    by simp
qed

lemma collect_Inl_iff: "(\<exists>e. collect rs = Inl e) \<longleftrightarrow> (\<exists>r\<in>set rs. isl r)"
proof (induction rs)
  case Nil
  show ?case by simp
next
  case (Cons r rs)
  then show ?case by (cases r) (auto split: sum.splits)
qed

lemma nth_opt_Some_iff: "nth_opt xs i = Some x \<longleftrightarrow> i < length xs \<and> xs ! i = x"
  by (auto simp: nth_opt_def)

lemma sc_prediction_Inr:
  assumes "sc_prediction q s a ds atr = Inr p"
  shows "q = Some (question p)" "s = Some (prediction_score p)"
    "a = Some (output_text (prediction_output p))"
    "s = Some (output_score (prediction_output p))"
    "ds = Some (prediction_documents p)"
  using assms by (auto simp: sc_prediction_def split: option.splits)

text \<open>A loop that ends without an exception has read five lists of which the first four
  have one length, and its \<open>i\<close>-th prediction is made of their \<open>i\<close>-th items.\<close>

lemma sc_predictions_Inr:
  assumes "sc_predictions qs scores answers docs attrs = Inr ps"
  shows "length ps = length scores \<and> length answers = length scores \<and>
         length qs = length scores \<and> length docs = length scores \<and>
         (\<forall>i<length scores.
            question (ps ! i) = qs ! i \<and>
            prediction_score (ps ! i) = scores ! i \<and>
            output_text (prediction_output (ps ! i)) = answers ! i \<and>
            output_score (prediction_output (ps ! i)) = scores ! i \<and>
            prediction_documents (ps ! i) = docs ! i)"
proof -
  define n where
    "n = Max {length qs, length scores, length answers, length docs, length attrs}"
  define f where
    "f = (\<lambda>i. sc_prediction (nth_opt qs i) (nth_opt scores i) (nth_opt answers i)
                 (nth_opt docs i) (nth_opt attrs i))"
  from assms have c: "collect (map f [0..<n]) = Inr ps"
    by (simp add: sc_predictions_def n_def f_def)
  have len: "length ps = n" and ati: "\<And>i. i < n \<Longrightarrow> f i = Inr (ps ! i)"
    using collect_map_upt[OF c] by blast+
  have ge: "length qs \<le> n" "length scores \<le> n" "length answers \<le> n" "length docs \<le> n"
    by (simp_all add: n_def)
  have item: "i < length qs \<and> i < length scores \<and> i < length answers \<and> i < length docs \<and>
        question (ps ! i) = qs ! i \<and>
        prediction_score (ps ! i) = scores ! i \<and>
        output_text (prediction_output (ps ! i)) = answers ! i \<and>
        output_score (prediction_output (ps ! i)) = scores ! i \<and>
        prediction_documents (ps ! i) = docs ! i" if "i < n" for i
  proof -
    from ati[OF that]
    have "sc_prediction (nth_opt qs i) (nth_opt scores i) (nth_opt answers i)
            (nth_opt docs i) (nth_opt attrs i) = Inr (ps ! i)"
      by (simp add: f_def)
    from sc_prediction_Inr[OF this] show ?thesis
      by (simp add: nth_opt_Some_iff)
  qed
  have "length qs = n \<and> length scores = n \<and> length answers = n \<and> length docs = n"
  proof (cases n)
    case 0
    with ge show ?thesis by simp
  next
    case (Suc m)
    then have "m < n" by simp
    from item[OF this] Suc ge show ?thesis by linarith
  qed
  with len item show ?thesis by simp
qed

lemma from_sequence_classification_Inr:
  assumes "from_sequence_classification np_argsort questions answers model_api_output context
             = (Inr env, model_api_output')"
  shows "\<exists>predictions_scores qs docs attrs ps.
           logits0 model_api_output = Inr predictions_scores \<and>
           sc_predictions qs predictions_scores answers docs attrs = Inr ps \<and>
           env = envelope model_api_output ps"
  using assms
  by (auto simp: from_sequence_classification_def Let_def
      split: sum.splits option.splits prod.splits)









lemma extend_and_sort_snd:
  "snd (extend_and_sort_attributions_to_scores np_argsort scores attrs fill)
     = attrs @ replicate (length scores - length attrs) fill"
proof (cases "length attrs < length scores")
  case True
  moreover have "nat (int (length scores) - int (length attrs)) = length scores - length attrs"
    by arith
  ultimately show ?thesis
    by (simp add: extend_and_sort_attributions_to_scores_def Let_def)
next
  case False
  then show ?thesis
    by (simp add: extend_and_sort_attributions_to_scores_def Let_def)
qed

lemma extend_and_sort_sndD:
  "extend_and_sort_attributions_to_scores np_argsort scores attrs fill = (r, c) \<Longrightarrow>
     c = attrs @ replicate (length scores - length attrs) fill"
  using extend_and_sort_snd[of np_argsort scores attrs fill] by simp

text \<open>The payload after a call of \<^verbatim>\<open>from_sequence_classification\<close>.\<close>

lemma from_sequence_classification_snd:
  "snd (from_sequence_classification np_argsort questions answers m ctx) =
     (case logits0 m of
        Inl e \<Rightarrow> m
      | Inr scores \<Rightarrow>
          (case prediction_documents_iter_from_context (int (length answers))
                  (overwrite_from_model_api_output m p_context ctx (length scores)) of
             Inl e \<Rightarrow> m
           | Inr docs \<Rightarrow>
               (case p_attributions m of
                  None \<Rightarrow> m
                | Some given \<Rightarrow>
                    m\<lparr>p_attributions :=
                        Some (given @ replicate (length scores - length given) None)\<rparr>)))"
  by (auto simp: from_sequence_classification_def Let_def
      dest: extend_and_sort_sndD split: sum.splits option.splits prod.splits)

text \<open>The questions the loops iterate over are not empty, unless the empty list is given.\<close>

lemma iterate_overwrite_nonempty:
  assumes "iterate (overwrite_from_model_api_output m key questions len) = Inr qs"
    and "0 < len" and "questions \<noteq> SList []"
  shows "qs \<noteq> []"
proof -
  define w where "w = (case key m of Some v \<Rightarrow> if truthy v then v else questions | None \<Rightarrow> questions)"
  have w: "truthy w \<or> w = questions"
    by (auto simp: w_def split: option.splits)
  have o: "overwrite_from_model_api_output m key questions len
             = (case w of SStr s \<Rightarrow> SList (replicate len s) | _ \<Rightarrow> w)"
    unfolding overwrite_from_model_api_output_def Let_def w_def by simp
  show ?thesis
  proof (cases w)
    case SNone
    with assms(1) o show ?thesis by (simp add: iterate_def)
  next
    case (SStr s)
    with assms(1,2) o show ?thesis by (auto simp: iterate_def)
  next
    case (SList xs)
    with w assms(3) have "xs \<noteq> []" by auto
    with assms(1) o SList show ?thesis by (simp add: iterate_def)
  next
    case SOther
    with assms(1) o show ?thesis by (simp add: iterate_def)
  qed
qed

lemma iterate_error: "iterate v = Inl e \<Longrightarrow> e = TypeError"
  by (cases v) (simp_all add: iterate_def)

lemma qa_group_list_context_no_scores:
  "qa_group atts (SList cs) ScNone i q answers
     = Inl (if i < length cs then TypeError else IndexError)"
  by (simp add: qa_group_def qa_context_def)

lemma qa_group_list_context_short_scores:
  "length ss \<le> i \<Longrightarrow> qa_group atts (SList cs) (ScList ss) i q answers = Inl IndexError"
  by (simp add: qa_group_def qa_context_def)





text \<open>The two forms of a prediction have one key when the mapping has its documents and
  the first of them its score.\<close>

lemma sort_predictions_key_mapping_agrees:
  assumes "pd_prediction_documents d = Some ds"
    and "ds = [] \<or> dd_document_score (hd ds) \<noteq> None"
  shows "sort_predictions_key (IsDict d) = sort_predictions_key (IsPrediction (parse_prediction d))"
  using assms
  by (cases ds)
     (auto simp: sort_predictions_key_def dict_key_def prediction_key_def parse_prediction_def
        parse_document_def Let_def)

text \<open>\<^verbatim>\<open>from_generation\<close> raises on every input.\<close>

lemma from_generation_never_returns:
  "\<exists>e. from_generation questions m ctx cs = Inl e"
  by (auto simp: from_generation_def overwrite_call_without_value_def
      split: option.splits list.splits)

lemma gen_prediction_never_returns: "gen_prediction ctx answer atr = Inl ValidationError"
  by (auto simp: gen_prediction_def split: option.splits str_arg.splits)

text \<open>
  \<^verbatim>\<open>from_sequence_classification\<close> leaves every key of the payload as it was but
  \<^verbatim>\<open>"attributions"\<close>: when the payload has that list, the list is shorter than the row of
  logits and the call gets as far as aligning the attributions, the list is padded in
  place with \<^verbatim>\<open>None\<close> up to the length of the row.
\<close>

lemma from_sequence_classification_payload_effect:
  "(snd (from_sequence_classification np_argsort questions answers m ctx) = m
    \<or> (\<exists>given scores.
          p_attributions m = Some given \<and> logits0 m = Inr scores \<and>
          length given < length scores \<and>
          snd (from_sequence_classification np_argsort questions answers m ctx)
            = m\<lparr>p_attributions :=
                  Some (given @ replicate (length scores - length given) None)\<rparr>))
   \<and> (logits0 m = Inr scores \<longrightarrow>
        prediction_documents_iter_from_context (int (length answers))
          (overwrite_from_model_api_output m p_context ctx (length scores)) = Inr docs \<longrightarrow>
        p_attributions m = Some given \<longrightarrow>
        length given < length scores \<longrightarrow>
        p_attributions (snd (from_sequence_classification np_argsort questions answers m ctx))
          = Some (given @ replicate (length scores - length given) None))"
proof -
  have *: "m\<lparr>p_attributions := Some given\<rparr> = m" if "p_attributions m = Some given" for given
    using that by simp
  show ?thesis
    unfolding from_sequence_classification_snd
    by (auto split: sum.splits option.splits simp: * not_less)
qed

lemma from_sequence_classification_payload_effect_example:
  "logits0 attr_payload = Inr [0.2, 0.9, 0.5]
   \<and> prediction_documents_iter_from_context (int (length [''a'', ''b'', ''c'']))
        (overwrite_from_model_api_output attr_payload p_context SNone (length [0.2, 0.9, 0.5 :: real]))
       = Inr [[], [], []]
   \<and> p_attributions attr_payload = Some [Some a0]
   \<and> length [Some a0] < length [0.2, 0.9, 0.5 :: real]
   \<and> p_attributions (snd (from_sequence_classification insertion_argsort (SStr ''q'') [''a'', ''b'', ''c'']
                              attr_payload SNone))
       = Some [Some a0, None, None]"
proof -
  have h1: "logits0 attr_payload = Inr [0.2, 0.9, 0.5]"
    by code_simp
  have h2: "prediction_documents_iter_from_context (int (length [''a'', ''b'', ''c'']))
        (overwrite_from_model_api_output attr_payload p_context SNone (length [0.2, 0.9, 0.5 :: real]))
       = Inr [[], [], []]"
    by code_simp
  have h3: "p_attributions attr_payload = Some [Some a0]"
    by (simp add: attr_payload_def)
  have h4: "length [Some a0] < length [0.2, 0.9, 0.5 :: real]"
    by simp
  from from_sequence_classification_payload_effect
         [of insertion_argsort "SStr ''q''" "[''a'', ''b'', ''c'']" attr_payload SNone
             "[0.2, 0.9, 0.5]" "[[], [], []]" "[Some a0]"] h1 h2 h3 h4
  show ?thesis
    by (simp add: numeral_3_eq_3)
qed

text \<open>
  The extractive QA strategy on one question, one context and two candidate answers, the
  second of them empty: the empty answer becomes \<^verbatim>\<open>"No answer found."\<close> and stands last.
\<close>

lemma from_question_answering_example:
  "from_question_answering (SStr ''Which city?'')
     (empty_payload\<lparr>p_answers :=
        Some [[\<lparr>ans_answer = ''Paris'', ans_start = 0, ans_end = 5, ans_score = 0.8\<rparr>,
               \<lparr>ans_answer = [], ans_start = 0, ans_end = 0, ans_score = 0.1\<rparr>]]\<rparr>)
     (SStr ''Paris is the capital of France.'') ScNone
   = Inr \<lparr>predictions =
            [mk_Prediction ''Which city?'' 0.8 ''Paris''
               [mk_PredictionDocument ''Paris is the capital of France.'' (Some [0, 5]) 1],
             mk_Prediction ''Which city?'' 0.1 ''No answer found.''
               [mk_PredictionDocument ''Paris is the capital of France.'' (Some [0, 0]) 1]],
          adversarial = None\<rparr>"
  by code_simp

section \<open>The claims\<close>

text \<open>
  C1. An envelope built without adversarial info, from predictions none of which has
  NaN as its prediction score or as the score of its first document, holds its
  predictions in non-increasing order of the key (answer found, prediction score, lead
  document score) of the specification; predictions with equal keys stand in the order
  they had in the list given, and the envelope holds the predictions given, each as
  often as given.
\<close>

theorem QueryOutput_predictions_sorted_without_nan:
  assumes "\<forall>p\<in>set ps. \<not> is_nan (prediction_score p) \<and> \<not> is_nan (spec_lead_document_score p)"
  shows "sorted_wrt (\<lambda>a b. spec_key_ge (spec_ranking_key a) (spec_ranking_key b))
           (predictions (QueryOutput_init_float ps None))
         \<and> filter (\<lambda>p. spec_ranking_key p = k) (predictions (QueryOutput_init_float ps None))
             = filter (\<lambda>p. spec_ranking_key p = k) ps
         \<and> mset (predictions (QueryOutput_init_float ps None)) = mset ps"
proof -
  define f :: "pyfloat Prediction \<Rightarrow> bool \<times> (int \<times> real) \<times> (int \<times> real)"
    where "f = (\<lambda>p. key_rank (spec_ranking_key p))"
  define res where "res = predictions (QueryOutput_init_float ps None)"
  have res: "res = sorted_reverse f ps"
    using py_sorted_reverse_without_nan[OF assms]
    by (simp add: res_def f_def QueryOutput_init_float_None)
  have m: "mset res = mset ps"
    by (simp add: res mset_sorted_reverse)
  then have sets: "set res = set ps"
    by (rule mset_eq_setD)
  have ge: "spec_key_ge (spec_ranking_key a) (spec_ranking_key b) = (f b \<le> f a)"
    if "a \<in> set ps" "b \<in> set ps" for a b
    using that assms by (simp add: f_def spec_ranking_key_def spec_key_ge_rank)
  have "sorted_wrt (\<lambda>a b. f b \<le> f a) res"
    by (simp add: res sorted_reverse_desc)
  then have s: "sorted_wrt (\<lambda>a b. spec_key_ge (spec_ranking_key a) (spec_ranking_key b)) res"
    by (rule sorted_wrt_mono_rel[rotated]) (simp add: ge sets)
  have st: "filter (\<lambda>p. spec_ranking_key p = k) res = filter (\<lambda>p. spec_ranking_key p = k) ps"
  proof (cases "\<exists>q\<in>set ps. spec_ranking_key q = k")
    case False
    then have "filter (\<lambda>p. spec_ranking_key p = k) ps = []"
      and "filter (\<lambda>p. spec_ranking_key p = k) res = []"
      by (simp_all add: filter_empty_conv sets)
    then show ?thesis by simp
  next
    case True
    then obtain q where q: "q \<in> set ps" "spec_ranking_key q = k"
      by blast
    have eq: "(spec_ranking_key p = k) = (f p = f q)" if "p \<in> set ps" for p
      using that q assms key_rank_inj[of "prediction_score p" "spec_lead_document_score p"
          "prediction_score q" "spec_lead_document_score q" "spec_answer_found p"
          "spec_answer_found q"]
      by (auto simp: f_def spec_ranking_key_def)
    have "filter (\<lambda>p. spec_ranking_key p = k) res = filter (\<lambda>p. f p = f q) res"
      by (rule filter_cong) (simp_all add: eq sets)
    also have "\<dots> = filter (\<lambda>p. f p = f q) ps"
      by (simp add: res sorted_reverse_stable)
    also have "\<dots> = filter (\<lambda>p. spec_ranking_key p = k) ps"
      by (rule filter_cong) (simp_all add: eq)
    finally show ?thesis .
  qed
  from s st m show ?thesis
    by (simp add: res_def)
qed

text \<open>On \<open>ranked_example\<close>: answers before the others, then by score, then by the score of
  the first document; \<open>c\<close> and \<open>d\<close> have the same key and keep their order.\<close>

theorem QueryOutput_predictions_sorted_without_nan_witness:
  "list_all (\<lambda>p. \<not> is_nan (prediction_score p) \<and> \<not> is_nan (spec_lead_document_score p))
     ranked_example
   \<and> map (output_text \<circ> prediction_output) (predictions (QueryOutput_init_float ranked_example None))
       = [''c'', ''d'', ''b'', ''a'', ''No answer found.'', '''']
   \<and> sorted_wrt (\<lambda>a b. spec_key_ge (spec_ranking_key a) (spec_ranking_key b))
       (predictions (QueryOutput_init_float ranked_example None))
   \<and> map (output_text \<circ> prediction_output)
       (filter (\<lambda>p. spec_ranking_key p = (True, Finite 0.5, Finite 0.7))
          (predictions (QueryOutput_init_float ranked_example None))) = [''c'', ''d'']
   \<and> mset (predictions (QueryOutput_init_float ranked_example None)) = mset ranked_example"
proof -
  have h: "\<forall>p\<in>set ranked_example.
             \<not> is_nan (prediction_score p) \<and> \<not> is_nan (spec_lead_document_score p)"
    by code_simp
  have h': "list_all (\<lambda>p. \<not> is_nan (prediction_score p) \<and> \<not> is_nan (spec_lead_document_score p))
              ranked_example"
    using h by (simp add: list_all_iff)
  have e1: "map (output_text \<circ> prediction_output)
              (predictions (QueryOutput_init_float ranked_example None))
            = [''c'', ''d'', ''b'', ''a'', ''No answer found.'', '''']"
    by code_simp
  have e2: "map (output_text \<circ> prediction_output)
              (filter (\<lambda>p. spec_ranking_key p = (True, Finite 0.5, Finite 0.7)) ranked_example)
            = [''c'', ''d'']"
    by code_simp
  from QueryOutput_predictions_sorted_without_nan[OF h, of "(True, Finite 0.5, Finite 0.7)"]
    h' e1 e2
  show ?thesis
    by simp
qed

text \<open>
  With a score that is NaN the order may fail: \<^verbatim>\<open>sorted\<close> leaves the scores 0.1, NaN,
  0.9 as they are, no comparison with NaN being true, although the key of the first
  prediction is less than that of the third.
\<close>

theorem QueryOutput_predictions_nan_counterexample:
  "map prediction_score (predictions (QueryOutput_init_float nan_example None))
     = [Finite 0.1, NaN 0, Finite 0.9]
   \<and> map spec_ranking_key (predictions (QueryOutput_init_float nan_example None))
     = [(True, Finite 0.1, Finite 1), (True, NaN 0, Finite 1), (True, Finite 0.9, Finite 1)]
   \<and> tuple_lt (True, Finite 0.1, Finite 1) (True, Finite 0.9, Finite 1)
   \<and> \<not> sorted_wrt (\<lambda>a b. spec_key_ge (spec_ranking_key a) (spec_ranking_key b))
         (predictions (QueryOutput_init_float nan_example None))"
  by code_simp

text \<open>
  C7. In an envelope built without adversarial info, a prediction whose output is the
  empty string or \<^verbatim>\<open>"No answer found."\<close> stands after every prediction whose output is
  neither, whatever their scores.
\<close>

theorem no_answer_sorts_last:
  assumes "i < length (predictions (QueryOutput_init ps None))"
    and "j < length (predictions (QueryOutput_init ps None))"
    and "output_text (prediction_output (predictions (QueryOutput_init ps None) ! i))
           \<in> {[], NO_ANSWER_FOUND_STRING}"
    and "output_text (prediction_output (predictions (QueryOutput_init ps None) ! j))
           \<notin> {[], NO_ANSWER_FOUND_STRING}"
  shows "j < i"
proof (rule ccontr)
  define rs where "rs = predictions (QueryOutput_init ps None)"
  assume "\<not> j < i"
  moreover from assms(3,4) have "i \<noteq> j"
    by auto
  ultimately have "i < j"
    by simp
  have "sorted_wrt (\<lambda>a b. prediction_key b \<le> prediction_key a) rs"
    by (simp add: rs_def QueryOutput_init_None sorted_reverse_desc)
  with \<open>i < j\<close> assms(2) have le: "prediction_key (rs ! j) \<le> prediction_key (rs ! i)"
    by (simp add: sorted_wrt_iff_nth_less rs_def)
  from assms(3) have "fst (prediction_key (rs ! i)) = False"
    by (auto simp: prediction_key_def Let_def rs_def)
  moreover from assms(4) have "fst (prediction_key (rs ! j)) = True"
    by (auto simp: prediction_key_def Let_def rs_def)
  ultimately show False
    using le by (cases "prediction_key (rs ! i)"; cases "prediction_key (rs ! j)") auto
qed

theorem no_answer_sorts_last_witness:
  "1 < length (predictions (QueryOutput_init no_answer_first None))
   \<and> 0 < length (predictions (QueryOutput_init no_answer_first None))
   \<and> output_text (prediction_output (predictions (QueryOutput_init no_answer_first None) ! 1))
       \<in> {[], NO_ANSWER_FOUND_STRING}
   \<and> output_text (prediction_output (predictions (QueryOutput_init no_answer_first None) ! 0))
       \<notin> {[], NO_ANSWER_FOUND_STRING}
   \<and> map prediction_score (predictions (QueryOutput_init no_answer_first None)) = [0.1, 0.9]
   \<and> (0::nat) < 1"
proof -
  have h1: "1 < length (predictions (QueryOutput_init no_answer_first None))"
    by code_simp
  have h2: "0 < length (predictions (QueryOutput_init no_answer_first None))"
    by code_simp
  have h3: "output_text (prediction_output
               (predictions (QueryOutput_init no_answer_first None) ! 1))
             \<in> {[], NO_ANSWER_FOUND_STRING}"
    by code_simp
  have h4: "output_text (prediction_output
               (predictions (QueryOutput_init no_answer_first None) ! 0))
             \<notin> {[], NO_ANSWER_FOUND_STRING}"
    by code_simp
  have h5: "map prediction_score (predictions (QueryOutput_init no_answer_first None))
             = [0.1, 0.9]"
    by code_simp
  from no_answer_sorts_last[OF h1 h2 h3 h4] h1 h2 h3 h4 h5 show ?thesis
    by simp
qed

text \<open>
  C4. The expansion of a context for \<open>n\<close> predictions: \<^verbatim>\<open>None\<close> gives \<open>n\<close> empty lists
  of documents; a string gives \<open>n\<close> lists of one document each, whose text is the string;
  a list of another length than \<open>n\<close> raises \<^verbatim>\<open>ValueError\<close> and a list of length \<open>n\<close>
  gives one list of one document per item; a value of another type raises
  \<^verbatim>\<open>TypeError\<close>; nothing else raises.
\<close>

theorem prediction_documents_iter_from_context_cases:
  "prediction_documents_iter_from_context n SNone = Inr (replicate (nat n) [])
   \<and> prediction_documents_iter_from_context n (SStr s)
       = Inr (replicate (nat n) [PredictionDocument_of s])
   \<and> document (PredictionDocument_of s) = s
   \<and> (int (length cs) \<noteq> n \<longrightarrow>
        prediction_documents_iter_from_context n (SList cs) = Inl ValueError)
   \<and> (int (length cs) = n \<longrightarrow>
        prediction_documents_iter_from_context n (SList cs)
          = Inr (map (\<lambda>c. [PredictionDocument_of c]) cs))
   \<and> prediction_documents_iter_from_context n SOther = Inl TypeError
   \<and> ((\<exists>e. prediction_documents_iter_from_context n ctx = Inl e) \<longleftrightarrow>
        ctx = SOther \<or> (\<exists>cs. ctx = SList cs \<and> int (length cs) \<noteq> n))"
  by (cases ctx)
     (simp_all add: prediction_documents_iter_from_context_def PredictionDocument_of_def
        mk_PredictionDocument_def)

theorem prediction_documents_iter_from_context_cases_witness:
  "prediction_documents_iter_from_context 3 SNone = Inr [[], [], []]
   \<and> prediction_documents_iter_from_context 3 (SStr ''X'')
       = Inr [[PredictionDocument_of ''X''], [PredictionDocument_of ''X''],
              [PredictionDocument_of ''X'']]
   \<and> int (length [''A'', ''B'']) \<noteq> 3
   \<and> prediction_documents_iter_from_context 3 (SList [''A'', ''B'']) = Inl ValueError
   \<and> int (length [''A'', ''B'']) = 2
   \<and> prediction_documents_iter_from_context 2 (SList [''A'', ''B''])
       = Inr [[PredictionDocument_of ''A''], [PredictionDocument_of ''B'']]
   \<and> prediction_documents_iter_from_context 3 SOther = Inl TypeError"
  using prediction_documents_iter_from_context_cases [of 3 "''X''" "[''A'', ''B'']" SOther]
    prediction_documents_iter_from_context_cases [of 2 "''X''" "[''A'', ''B'']" SOther]
  by (simp add: numeral_3_eq_3)

text \<open>
  C5. When the payload of the classification strategy holds adversarial indices, the
  envelope holds them as given and its predictions stand in the order of the loop over
  the zipped inputs: the \<open>i\<close>-th prediction has the \<open>i\<close>-th score and the \<open>i\<close>-th answer.
\<close>

theorem from_sequence_classification_adversarial_keeps_order:
  assumes "p_adversarial model_api_output = Some (Some adv)"
    and "from_sequence_classification np_argsort questions answers model_api_output context
           = (Inr env, model_api_output')"
  shows "adversarial env = Some adv \<and>
         (\<exists>predictions_scores qs docs attrs.
            logits0 model_api_output = Inr predictions_scores \<and>
            sc_predictions qs predictions_scores answers docs attrs = Inr (predictions env) \<and>
            length (predictions env) = length predictions_scores \<and>
            length answers = length predictions_scores \<and>
            (\<forall>i<length predictions_scores.
               prediction_score (predictions env ! i) = predictions_scores ! i \<and>
               output_text (prediction_output (predictions env ! i)) = answers ! i \<and>
               output_score (prediction_output (predictions env ! i))
                 = predictions_scores ! i))"
proof -
  from from_sequence_classification_Inr[OF assms(2)]
  obtain predictions_scores qs docs attrs ps where
    l: "logits0 model_api_output = Inr predictions_scores" and
    s: "sc_predictions qs predictions_scores answers docs attrs = Inr ps" and
    e: "env = envelope model_api_output ps"
    by blast
  from e assms(1) have env: "env = \<lparr>predictions = ps, adversarial = Some adv\<rparr>"
    by (simp add: envelope_def QueryOutput_init_Some)
  from sc_predictions_Inr[OF s] env l s show ?thesis
    by auto
qed

theorem from_sequence_classification_adversarial_keeps_order_witness:
  "p_adversarial adv_payload = Some (Some \<lparr>indices = Some [1, 2]\<rparr>)
   \<and> from_sequence_classification insertion_argsort (SStr ''q'') [''a'', ''b'', ''c''] adv_payload (SStr ''ctx'')
       = (Inr adv_env, adv_payload)
   \<and> adversarial adv_env = Some \<lparr>indices = Some [1, 2]\<rparr>
   \<and> map prediction_score (predictions adv_env) = [0.2, 0.9, 0.5]"
proof -
  have h1: "p_adversarial adv_payload = Some (Some \<lparr>indices = Some [1, 2]\<rparr>)"
    by (simp add: adv_payload_def)
  have h2: "from_sequence_classification insertion_argsort (SStr ''q'') [''a'', ''b'', ''c''] adv_payload
              (SStr ''ctx'') = (Inr adv_env, adv_payload)"
    by code_simp
  have h3: "map prediction_score (predictions adv_env) = [0.2, 0.9, 0.5]"
    by (simp add: adv_env_def mk_Prediction_def)
  from from_sequence_classification_adversarial_keeps_order[OF h1 h2] h1 h2 h3
  show ?thesis
    by simp
qed




text \<open>
  C9 fails on the code. \<^verbatim>\<open>from_sequence_classification\<close> extends the list under
  \<^verbatim>\<open>"attributions"\<close> of the caller's payload in place: given one attribution for three
  logits, it leaves two \<^verbatim>\<open>None\<close> behind in that list.
\<close>

theorem from_sequence_classification_mutates_payload:
  "p_attributions attr_payload = Some [Some a0]
   \<and> p_attributions (snd (from_sequence_classification np_argsort (SStr ''q'')
                              [''a'', ''b'', ''c''] attr_payload SNone))
       = Some [Some a0, None, None]
   \<and> snd (from_sequence_classification np_argsort (SStr ''q'') [''a'', ''b'', ''c'']
             attr_payload SNone)
       \<noteq> attr_payload"
proof -
  have before: "p_attributions attr_payload = Some [Some a0]"
    by (simp add: attr_payload_def)
  have "logits0 attr_payload = Inr [0.2, 0.9, 0.5]"
    by (simp add: logits0_def attr_payload_def)
  moreover
  have "prediction_documents_iter_from_context (int (length [''a'', ''b'', ''c'']))
          (overwrite_from_model_api_output attr_payload p_context SNone
             (length [0.2, 0.9, 0.5 :: real]))
        = Inr [[], [], []]"
    by (simp add: prediction_documents_iter_from_context_def
        overwrite_from_model_api_output_def attr_payload_def empty_payload_def
        numeral_3_eq_3)
  ultimately
  have after: "snd (from_sequence_classification np_argsort (SStr ''q'') [''a'', ''b'', ''c'']
                      attr_payload SNone)
                 = attr_payload\<lparr>p_attributions := Some [Some a0, None, None]\<rparr>"
    by (simp add: from_sequence_classification_snd before numeral_3_eq_3)
  then have padded: "p_attributions (snd (from_sequence_classification np_argsort (SStr ''q'')
                                            [''a'', ''b'', ''c''] attr_payload SNone))
                       = Some [Some a0, None, None]"
    by simp
  with before have "snd (from_sequence_classification np_argsort (SStr ''q'')
                           [''a'', ''b'', ''c''] attr_payload SNone) \<noteq> attr_payload"
    by auto
  with before padded show ?thesis
    by simp
qed

text \<open>
  C10, as the code has it. With a list as context and no context scores, the extractive
  QA strategy raises whenever the payload has a group of answers and the questions are
  not the empty list: \<^verbatim>\<open>TypeError\<close>, or \<^verbatim>\<open>IndexError\<close> when the context is the empty list.
  With a list of context scores it raises when the list is shorter than the number of
  pairs of a question and a group of answers. A list of scores shorter than the context
  that covers all pairs raises nothing, and neither does the empty list of questions, as
  the counterexample shows.
\<close>

theorem from_question_answering_list_context_needs_scores:
  "(p_answers m = Some groups \<longrightarrow> groups \<noteq> [] \<longrightarrow> questions \<noteq> SList [] \<longrightarrow>
      from_question_answering questions m (SList cs) ScNone
        \<in> {Inl TypeError, Inl IndexError})
   \<and> (p_answers m = Some groups \<longrightarrow>
        iterate (overwrite_from_model_api_output m p_questions questions (length groups))
          = Inr qs \<longrightarrow>
        length ss < min (length qs) (length groups) \<longrightarrow>
        (\<exists>e. from_question_answering questions m (SList cs) (ScList ss) = Inl e))"
proof (intro conjI impI)
  assume g: "p_answers m = Some groups" and ne: "groups \<noteq> []" and q: "questions \<noteq> SList []"
  show "from_question_answering questions m (SList cs) ScNone \<in> {Inl TypeError, Inl IndexError}"
  proof (cases "iterate (overwrite_from_model_api_output m p_questions questions (length groups))")
    case (Inl e)
    with g iterate_error[OF Inl] show ?thesis
      by (simp add: from_question_answering_def)
  next
    case (Inr qs)
    from iterate_overwrite_nonempty[OF Inr _ q] ne have "qs \<noteq> []" by simp
    then obtain q0 qs' where qs: "qs = q0 # qs'" by (cases qs) auto
    from ne obtain g0 gs' where gs: "groups = g0 # gs'" by (cases groups) auto
    have "zip [0..<length qs] (zip qs groups)
            = (0, q0, g0) # zip [Suc 0..<length qs] (zip qs' gs')"
      by (simp add: qs gs upt_conv_Cons del: upt_Suc)
    with g Inr show ?thesis
      by (simp add: from_question_answering_def qa_group_list_context_no_scores)
  qed
next
  assume g: "p_answers m = Some groups"
    and it: "iterate (overwrite_from_model_api_output m p_questions questions (length groups))
          = Inr qs"
    and short: "length ss < min (length qs) (length groups)"
  let ?zs = "zip [0..<length qs] (zip qs groups)"
  let ?F = "\<lambda>(i_context, question', answers).
              qa_group (p_attributions m) (SList cs) (ScList ss) i_context question' answers"
  have k: "length ss < length ?zs" using short by simp
  then have "?zs ! length ss = (length ss, qs ! length ss, groups ! length ss)"
    using short by simp
  then have "?F (?zs ! length ss) = Inl IndexError"
    by (simp add: qa_group_list_context_short_scores)
  moreover have "?zs ! length ss \<in> set ?zs"
    using k by (rule nth_mem)
  ultimately have "\<exists>r\<in>set (map ?F ?zs). isl r"
    by (metis (no_types, lifting) image_eqI list.set_map sum.disc(1))
  then obtain e where "collect (map ?F ?zs) = Inl e"
    using collect_Inl_iff by blast
  with g it show "\<exists>e. from_question_answering questions m (SList cs) (ScList ss) = Inl e"
    by (simp add: from_question_answering_def)
qed

theorem from_question_answering_list_context_needs_scores_witness:
  "p_answers qa_payload = Some [[answer_x]]
   \<and> [[answer_x]] \<noteq> []
   \<and> SStr ''q'' \<noteq> SList []
   \<and> from_question_answering (SStr ''q'') qa_payload (SList [''a'', ''b'']) ScNone
       = Inl TypeError
   \<and> p_answers qa_payload2 = Some [[answer_x], [answer_x]]
   \<and> iterate (overwrite_from_model_api_output qa_payload2 p_questions
                (SList [''q1'', ''q2'']) (length [[answer_x], [answer_x]]))
       = Inr [''q1'', ''q2'']
   \<and> length [0.5 :: real] < min (length [''q1'', ''q2'']) (length [[answer_x], [answer_x]])
   \<and> from_question_answering (SList [''q1'', ''q2'']) qa_payload2 (SList [''a'', ''b''])
         (ScList [0.5])
       = Inl IndexError"
proof -
  have h1: "p_answers qa_payload = Some [[answer_x]]"
    by (simp add: qa_payload_def)
  have h2: "from_question_answering (SStr ''q'') qa_payload (SList [''a'', ''b'']) ScNone
              = Inl TypeError"
    by code_simp
  have h3: "p_answers qa_payload2 = Some [[answer_x], [answer_x]]"
    by (simp add: qa_payload2_def)
  have h4: "iterate (overwrite_from_model_api_output qa_payload2 p_questions
                       (SList [''q1'', ''q2'']) (length [[answer_x], [answer_x]]))
              = Inr [''q1'', ''q2'']"
    by code_simp
  have h5: "from_question_answering (SList [''q1'', ''q2'']) qa_payload2
              (SList [''a'', ''b'']) (ScList [0.5]) = Inl IndexError"
    by code_simp
  from from_question_answering_list_context_needs_scores
         [of qa_payload "[[answer_x]]" "SStr ''q''" "[''a'', ''b'']"]
       from_question_answering_list_context_needs_scores
         [of qa_payload2 "[[answer_x], [answer_x]]" "SList [''q1'', ''q2'']" "[''a'', ''b'']"
             "[''q1'', ''q2'']" "[0.5]"]
       h1 h2 h3 h4 h5
  show ?thesis
    by simp
qed

theorem from_question_answering_short_scores_counterexample:
  "p_answers qa_payload = Some [[answer_x]]
   \<and> length [0.5 :: real] < length [''a'', ''b'']
   \<and> from_question_answering (SStr ''q'') qa_payload (SList [''a'', ''b'']) (ScList [0.5])
       = Inr \<lparr>predictions =
                [mk_Prediction ''q'' 0.5 ''x''
                   [mk_PredictionDocument ''a'' (Some [0, 1]) 0.5]],
              adversarial = None\<rparr>
   \<and> from_question_answering (SList []) qa_payload (SList [''a'', ''b'']) ScNone
       = Inr \<lparr>predictions = [], adversarial = None\<rparr>"
  by code_simp




text \<open>
  C6 fails on the code. For a document without \<^verbatim>\<open>"document_score"\<close> the branch for a
  mapping takes the score 1, while the record that pydantic makes of the same mapping has
  the default score 0, which the branch for a record takes.
\<close>

theorem sort_predictions_key_mapping_differs:
  "sort_predictions_key (IsDict dict_without_score) = Inr (True, 0.5, 1)
   \<and> sort_predictions_key (IsPrediction (parse_prediction dict_without_score))
       = Inr (True, 0.5, 0)"
  by code_simp

text \<open>
  C2 fails on the code. The generation strategy raises \<^verbatim>\<open>TypeError\<close> at its call of
  \<^verbatim>\<open>overwrite_from_model_api_output\<close> and builds no prediction, here for one generated text
  and the context \<^verbatim>\<open>"c"\<close>.
\<close>

theorem from_generation_raises:
  "from_generation (SStr ''q'') gen_payload (SStr ''c'') ScNone = Inl TypeError"
  by code_simp

end
